theory Spec2Isabelle
  imports Main "HOL-Library.Word"
begin

unbundle bit_operations_syntax

section \<open>gdeltloader: a shallow embedding of \<^verbatim>\<open>gdeltloader.py\<close>\<close>

text \<open>
  The program is a script: it parses its flags, optionally runs a MongoDB aggregation
  (\<^verbatim>\<open>--mapgeo\<close>), resolves a manifest (local file or HTTP download), and with
  \<^verbatim>\<open>--download\<close> walks the manifest line by line, downloading, checking, recording and
  unpacking archives. Everything it does is an effect on three things outside it: the
  working directory, the MongoDB server and the terminal; and it reads two more: the
  network and the clock. The model threads a \<open>world\<close> (files, collections, and the
  trace of observable actions) through every function, reads the network, the clock and
  the zip decoder from an \<open>env\<close>, and returns Python exceptions as values of type
  \<open>error\<close>, always together with the world as it is at that moment: an exception ends
  the process, but what was written before it stays written.

  Boundaries of the model, each one a fact about the libraries and not about this code:
  \<^item> strings are byte strings; text is identified with its UTF-8 encoding (a POSIX
    system with a UTF-8 locale), and \<^verbatim>\<open>str.split()\<close> and \<^verbatim>\<open>int()\<close> are modelled on ASCII;
  \<^item> a path is the string the program uses, in one flat working directory;
  \<^item> \<^verbatim>\<open>requests\<close> is a function from a URL to the final response (status and the chunks
    \<^verbatim>\<open>iter_content\<close> delivers) or to a connection failure;
  \<^item> \<^verbatim>\<open>zipfile\<close> is a function from archive bytes to the list of entries, or to
    \<^verbatim>\<open>BadZipFile\<close>;
  \<^item> \<^verbatim>\<open>hashlib.md5\<close> is the MD5 function of RFC 1321, written out below;
  \<^item> \<^verbatim>\<open>pymongo\<close> is a store of collections of documents which is reachable or not;
    the client and the collection handles are taken to be constructed without error,
    and the \<^verbatim>\<open>_id\<close> field that an insert adds is left out;
  \<^item> the clock does not advance during a run.
\<close>

subsection \<open>Python string functions\<close>

definition LF :: char where
  "LF = CHR 0x0A"

definition CR :: char where
  "CR = CHR 0x0D"

text \<open>The f-string fragment \<^verbatim>\<open>'{s}'\<close>: \<open>s\<close> between two single quotes.\<close>

definition quoted :: "string \<Rightarrow> string" where
  "quoted s = [CHR 0x27] @ s @ [CHR 0x27]"

text \<open>\<^verbatim>\<open>s.split(sep)\<close> for a separator of one character: never an empty list.\<close>

fun split_on :: "char \<Rightarrow> string \<Rightarrow> string list" where
  "split_on sep [] = [[]]"
| "split_on sep (c # cs) =
     (if c = sep then [] # split_on sep cs
      else (case split_on sep cs of
              [] \<Rightarrow> [[c]]
            | x # xs \<Rightarrow> (c # x) # xs))"

text \<open>
  \<^verbatim>\<open>def local_path(url): return url.split('/')[-1]\<close>
\<close>

definition local_path :: "string \<Rightarrow> string" where
  "local_path url = last (split_on (CHR ''/'') url)"

text \<open>
  \<^verbatim>\<open>l.split()\<close>: the maximal runs of characters that are not whitespace. The ASCII
  whitespace of \<^verbatim>\<open>str.isspace\<close> is 0x09 to 0x0D, 0x1C to 0x1F and the space.
\<close>

definition is_space :: "char \<Rightarrow> bool" where
  "is_space c \<longleftrightarrow>
     c \<in> set [CHR 0x09, CHR 0x0A, CHR 0x0B, CHR 0x0C, CHR 0x0D,
              CHR 0x1C, CHR 0x1D, CHR 0x1E, CHR 0x1F, CHR 0x20]"

fun split_ws_from :: "string \<Rightarrow> string \<Rightarrow> string list" where
  "split_ws_from cur [] = (if cur = [] then [] else [cur])"
| "split_ws_from cur (c # cs) =
     (if is_space c then (if cur = [] then split_ws_from [] cs else cur # split_ws_from [] cs)
      else split_ws_from (cur @ [c]) cs)"

definition split_ws :: "string \<Rightarrow> string list" where
  "split_ws s = split_ws_from [] s"

text \<open>
  \<^verbatim>\<open>int(s)\<close> on a token without whitespace: an optional sign, then decimal digits, with
  single underscores allowed between digits. \<open>None\<close> is \<^verbatim>\<open>ValueError\<close>.
\<close>

definition is_digit :: "char \<Rightarrow> bool" where
  "is_digit c \<longleftrightarrow> c \<in> set ''0123456789''"

definition digit_val :: "char \<Rightarrow> int" where
  "digit_val c = int (of_char c) - 48"

fun parse_digits :: "int \<Rightarrow> bool \<Rightarrow> string \<Rightarrow> int option" where
  "parse_digits acc prev [] = (if prev then Some acc else None)"
| "parse_digits acc prev (c # cs) =
     (if is_digit c then parse_digits (10 * acc + digit_val c) True cs
      else if c = CHR ''_'' \<and> prev then parse_digits acc False cs
      else None)"

definition py_int :: "string \<Rightarrow> int option" where
  "py_int s =
     (case s of
        [] \<Rightarrow> None
      | c # cs \<Rightarrow>
          if c = CHR ''+'' then parse_digits 0 False cs
          else if c = CHR ''-'' then map_option uminus (parse_digits 0 False cs)
          else parse_digits 0 False s)"

text \<open>\<^verbatim>\<open>str(n)\<close>, as the f-strings format an integer.\<close>

definition digit_char :: "nat \<Rightarrow> char" where
  "digit_char n = ''0123456789'' ! (n mod 10)"

fun show_nat :: "nat \<Rightarrow> string" where
  "show_nat n = (if n < 10 then [digit_char n] else show_nat (n div 10) @ [digit_char n])"

declare show_nat.simps [simp del]

definition show_int :: "int \<Rightarrow> string" where
  "show_int i = (if i < 0 then ''-'' @ show_nat (nat (- i)) else show_nat (nat i))"

text \<open>
  Reading a file in text mode: \<^verbatim>\<open>\r\n\<close> and \<^verbatim>\<open>\r\<close> become \<^verbatim>\<open>\n\<close>, and iterating the
  file gives the lines, each with its newline, the last one possibly without.
\<close>

fun universal_newlines :: "string \<Rightarrow> string" where
  "universal_newlines [] = []"
| "universal_newlines [c] = [if c = CR then LF else c]"
| "universal_newlines (c # d # cs) =
     (if c = CR \<and> d = LF then LF # universal_newlines cs
      else if c = CR then LF # universal_newlines (d # cs)
      else c # universal_newlines (d # cs))"

fun lines_from :: "string \<Rightarrow> string \<Rightarrow> string list" where
  "lines_from cur [] = (if cur = [] then [] else [cur])"
| "lines_from cur (c # cs) =
     (if c = LF then (cur @ [c]) # lines_from [] cs else lines_from (cur @ [c]) cs)"

definition keep_lines :: "string \<Rightarrow> string list" where
  "keep_lines s = lines_from [] s"

text \<open>
  \<^verbatim>\<open>bytes.decode("utf-8")\<close> succeeds exactly on well-formed UTF-8 (no overlong forms, no
  surrogates, nothing above U+10FFFF); the decoded text is identified with the bytes.
\<close>

definition cont_byte :: "nat \<Rightarrow> bool" where
  "cont_byte b \<longleftrightarrow> 0x80 \<le> b \<and> b \<le> 0xBF"

fun utf8_ok :: "nat list \<Rightarrow> bool" where
  "utf8_ok [] = True"
| "utf8_ok (b # bs) =
     (if b < 0x80 then utf8_ok bs
      else if 0xC2 \<le> b \<and> b \<le> 0xDF then
        (case bs of c1 # r \<Rightarrow> cont_byte c1 \<and> utf8_ok r | _ \<Rightarrow> False)
      else if 0xE0 \<le> b \<and> b \<le> 0xEF then
        (case bs of
           c1 # c2 # r \<Rightarrow>
             (if b = 0xE0 then 0xA0 \<le> c1 \<and> c1 \<le> 0xBF
              else if b = 0xED then 0x80 \<le> c1 \<and> c1 \<le> 0x9F
              else cont_byte c1) \<and> cont_byte c2 \<and> utf8_ok r
         | _ \<Rightarrow> False)
      else if 0xF0 \<le> b \<and> b \<le> 0xF4 then
        (case bs of
           c1 # c2 # c3 # r \<Rightarrow>
             (if b = 0xF0 then 0x90 \<le> c1 \<and> c1 \<le> 0xBF
              else if b = 0xF4 then 0x80 \<le> c1 \<and> c1 \<le> 0x8F
              else cont_byte c1) \<and> cont_byte c2 \<and> cont_byte c3 \<and> utf8_ok r
         | _ \<Rightarrow> False)
      else False)"

definition utf8_valid :: "string \<Rightarrow> bool" where
  "utf8_valid s = utf8_ok (map of_char s)"

subsection \<open>MD5 (\<^verbatim>\<open>hashlib.md5\<close>, RFC 1321)\<close>

definition md5_shifts :: "nat list" where
  "md5_shifts =
     [7, 12, 17, 22, 7, 12, 17, 22, 7, 12, 17, 22, 7, 12, 17, 22,
      5, 9, 14, 20, 5, 9, 14, 20, 5, 9, 14, 20, 5, 9, 14, 20,
      4, 11, 16, 23, 4, 11, 16, 23, 4, 11, 16, 23, 4, 11, 16, 23,
      6, 10, 15, 21, 6, 10, 15, 21, 6, 10, 15, 21, 6, 10, 15, 21]"

definition md5_consts :: "32 word list" where
  "md5_consts =
     [0xd76aa478, 0xe8c7b756, 0x242070db, 0xc1bdceee,
      0xf57c0faf, 0x4787c62a, 0xa8304613, 0xfd469501,
      0x698098d8, 0x8b44f7af, 0xffff5bb1, 0x895cd7be,
      0x6b901122, 0xfd987193, 0xa679438e, 0x49b40821,
      0xf61e2562, 0xc040b340, 0x265e5a51, 0xe9b6c7aa,
      0xd62f105d, 0x02441453, 0xd8a1e681, 0xe7d3fbc8,
      0x21e1cde6, 0xc33707d6, 0xf4d50d87, 0x455a14ed,
      0xa9e3e905, 0xfcefa3f8, 0x676f02d9, 0x8d2a4c8a,
      0xfffa3942, 0x8771f681, 0x6d9d6122, 0xfde5380c,
      0xa4beea44, 0x4bdecfa9, 0xf6bb4b60, 0xbebfbc70,
      0x289b7ec6, 0xeaa127fa, 0xd4ef3085, 0x04881d05,
      0xd9d4d039, 0xe6db99e5, 0x1fa27cf8, 0xc4ac5665,
      0xf4292244, 0x432aff97, 0xab9423a7, 0xfc93a039,
      0x655b59c3, 0x8f0ccc92, 0xffeff47d, 0x85845dd1,
      0x6fa87e4f, 0xfe2ce6e0, 0xa3014314, 0x4e0811a1,
      0xf7537e82, 0xbd3af235, 0x2ad7d2bb, 0xeb86d391]"

type_synonym md5_state = "32 word \<times> 32 word \<times> 32 word \<times> 32 word"

definition md5_round :: "32 word list \<Rightarrow> md5_state \<Rightarrow> nat \<Rightarrow> md5_state" where
  "md5_round m st i =
     (case st of (a, b, c, d) \<Rightarrow>
        let (f, g) =
              (if i < 16 then ((b AND c) OR (NOT b AND d), i)
               else if i < 32 then ((d AND b) OR (NOT d AND c), (5 * i + 1) mod 16)
               else if i < 48 then (b XOR c XOR d, (3 * i + 5) mod 16)
               else (c XOR (b OR NOT d), (7 * i) mod 16));
            f' = f + a + md5_consts ! i + m ! g
        in (d, b + word_rotl (md5_shifts ! i) f', b, c))"

definition le_word32 :: "8 word list \<Rightarrow> 32 word" where
  "le_word32 bs = foldr (\<lambda>b acc. push_bit 8 acc OR ucast b) bs 0"

function split_blocks :: "nat \<Rightarrow> 'a list \<Rightarrow> 'a list list" where
  "split_blocks n xs = (if n = 0 \<or> xs = [] then [] else take n xs # split_blocks n (drop n xs))"
  by pat_completeness auto
termination
  by (relation "measure (\<lambda>(n, xs). length xs)") auto

declare split_blocks.simps [simp del]

definition md5_block :: "md5_state \<Rightarrow> 8 word list \<Rightarrow> md5_state" where
  "md5_block st blk =
     (case st of (a0, b0, c0, d0) \<Rightarrow>
        case foldl (md5_round (map le_word32 (split_blocks 4 blk))) st [0..<64] of
          (a, b, c, d) \<Rightarrow> (a0 + a, b0 + b, c0 + c, d0 + d))"

definition le_bytes :: "nat \<Rightarrow> 'a::len word \<Rightarrow> 8 word list" where
  "le_bytes k w = map (\<lambda>i. ucast (drop_bit (8 * i) w)) [0..<k]"

definition md5_pad :: "8 word list \<Rightarrow> 8 word list" where
  "md5_pad msg =
     msg @ [0x80] @ replicate ((119 - length msg mod 64) mod 64) 0
         @ le_bytes 8 (8 * of_nat (length msg) :: 64 word)"

definition md5_digest :: "8 word list \<Rightarrow> 8 word list" where
  "md5_digest msg =
     (case foldl md5_block (0x67452301, 0xefcdab89, 0x98badcfe, 0x10325476)
             (split_blocks 64 (md5_pad msg)) of
        (a, b, c, d) \<Rightarrow> concat (map (le_bytes 4) [a, b, c, d]))"

definition hex_digit :: "8 word \<Rightarrow> char" where
  "hex_digit n = ''0123456789abcdef'' ! unat (n AND 15)"

definition hex_of_bytes :: "8 word list \<Rightarrow> string" where
  "hex_of_bytes bs = concat (map (\<lambda>b. [hex_digit (drop_bit 4 b), hex_digit b]) bs)"

text \<open>\<^verbatim>\<open>hashlib.md5(buf).hexdigest()\<close>: 32 lower-case hexadecimal digits.\<close>

definition md5_hexdigest :: "string \<Rightarrow> string" where
  "md5_hexdigest s = hex_of_bytes (md5_digest (map of_char s))"

subsection \<open>The world outside the program\<close>

datatype node = File string | Dir

record datetime =
  year :: nat
  month :: nat
  day :: nat
  hour :: nat
  minute :: nat
  second :: nat

text \<open>
  BSON values: what a document stored by \<^verbatim>\<open>pymongo\<close> holds, and also the Python
  dictionaries, lists and strings of which the aggregation pipeline is made. A double is
  its 64 bits: the program never computes with one.
\<close>

datatype bson =
    BNull
  | BInt int
  | BDouble "64 word"
  | BString string
  | BDate datetime
  | BArray "bson list"
  | BDoc "(string \<times> bson) list"

type_synonym doc = "(string \<times> bson) list"

text \<open>
  The observable actions, in the order the program performs them: text written to
  standard output, an HTTP GET issued, a call of \<^verbatim>\<open>compute_md5\<close>, a call of
  \<^verbatim>\<open>extract_zip_file\<close>.
\<close>

datatype event =
    Stdout string
  | HttpGet string
  | Md5Of string
  | Unzip string

datatype error =
    FileNotFoundError
  | IsADirectoryError
  | ConnectionError
  | HTTPError nat
  | UnboundLocalError
  | BadZipFile
  | UnicodeDecodeError
  | ValueError
  | OverflowError
  | ServerSelectionTimeoutError
  | OperationFailure

record response =
  status :: nat
  chunks :: "string list"

record env =
  http :: "string \<Rightarrow> response option"
  unzip :: "string \<Rightarrow> (string \<times> string) list option"
  utcnow :: datetime
  mongo_up :: bool

record world =
  fs :: "string \<Rightarrow> node option"
  db :: "string \<times> string \<Rightarrow> doc list option"
  trace :: "event list"

definition emit :: "event \<Rightarrow> world \<Rightarrow> world" where
  "emit ev w = w\<lparr>trace := trace w @ [ev]\<rparr>"

text \<open>\<^verbatim>\<open>print(s)\<close> writes \<open>s\<close> and a newline.\<close>

definition py_print :: "string \<Rightarrow> world \<Rightarrow> world" where
  "py_print s w = emit (Stdout (s @ [LF])) w"

text \<open>The empty string names no file: \<^verbatim>\<open>os.path.exists("")\<close> is false.\<close>

definition os_path_exists :: "world \<Rightarrow> string \<Rightarrow> bool" where
  "os_path_exists w p \<longleftrightarrow> p \<noteq> [] \<and> fs w p \<noteq> None"

definition os_path_isfile :: "world \<Rightarrow> string \<Rightarrow> bool" where
  "os_path_isfile w p \<longleftrightarrow>
     p \<noteq> [] \<and> (case fs w p of Some (File c) \<Rightarrow> True | _ \<Rightarrow> False)"

text \<open>\<^verbatim>\<open>open(p, 'w')\<close> and \<^verbatim>\<open>open(p, 'wb')\<close>: the file is created or truncated.\<close>

definition open_w :: "string \<Rightarrow> world \<Rightarrow> error + world" where
  "open_w p w =
     (if p = [] then Inl FileNotFoundError
      else (case fs w p of
              Some Dir \<Rightarrow> Inl IsADirectoryError
            | _ \<Rightarrow> Inr (w\<lparr>fs := (fs w)(p \<mapsto> File [])\<rparr>)))"

text \<open>\<^verbatim>\<open>f.write(data)\<close> on a file opened for writing.\<close>

definition append_file :: "string \<Rightarrow> string \<Rightarrow> world \<Rightarrow> world" where
  "append_file p data w =
     (case fs w p of
        Some (File c) \<Rightarrow> w\<lparr>fs := (fs w)(p \<mapsto> File (c @ data))\<rparr>
      | _ \<Rightarrow> w)"

text \<open>\<^verbatim>\<open>open(p, 'rb').read()\<close>.\<close>

definition read_file :: "string \<Rightarrow> world \<Rightarrow> error + string" where
  "read_file p w =
     (if p = [] then Inl FileNotFoundError
      else (case fs w p of
              None \<Rightarrow> Inl FileNotFoundError
            | Some Dir \<Rightarrow> Inl IsADirectoryError
            | Some (File c) \<Rightarrow> Inr c))"

text \<open>
  \<^verbatim>\<open>for l in open(p, "r")\<close>: the lines of a text file. Python decodes the file in blocks
  while the loop runs; the model decodes it when it is opened.
\<close>

definition read_text_lines :: "string \<Rightarrow> world \<Rightarrow> error + string list" where
  "read_text_lines p w =
     (case read_file p w of
        Inl err \<Rightarrow> Inl err
      | Inr c \<Rightarrow>
          if utf8_valid c then Inr (keep_lines (universal_newlines c))
          else Inl UnicodeDecodeError)"

subsection \<open>The functions of the module\<close>

text \<open>
  \<^verbatim>\<open>
  def compute_md5(file):
      hasher = hashlib.md5()
      with open(file, 'rb') as input:
          buf = input.read()
          hasher.update(buf)
      return hasher.hexdigest()
  \<close>
\<close>

definition compute_md5 :: "string \<Rightarrow> world \<Rightarrow> (error + string) \<times> world" where
  "compute_md5 file w =
     (let w1 = emit (Md5Of file) w
      in case read_file file w1 of
           Inl err \<Rightarrow> (Inl err, w1)
         | Inr buf \<Rightarrow> (Inr (md5_hexdigest buf), w1))"

text \<open>
  The loop of \<^verbatim>\<open>download_file\<close> over \<^verbatim>\<open>enumerate(r.iter_content(chunk_size=8192), 1)\<close>:
  \<^verbatim>\<open>
  if chunk:
      print(".", end="")
      if i % 80 == 0:
          print("")
      f.write(chunk)
  \<close>
\<close>

fun write_chunks :: "string \<Rightarrow> nat \<Rightarrow> string list \<Rightarrow> world \<Rightarrow> world" where
  "write_chunks f i [] w = w"
| "write_chunks f i (chunk # rest) w =
     write_chunks f (Suc i) rest
       (if chunk \<noteq> [] then
          (let w1 = emit (Stdout ''.'') w;
               w2 = (if i mod 80 = 0 then emit (Stdout [LF]) w1 else w1)
           in append_file f chunk w2)
        else w)"

text \<open>
  \<^verbatim>\<open>r.raise_for_status()\<close> raises \<^verbatim>\<open>HTTPError\<close> for the statuses 400 to 599 and for no
  other.
\<close>

definition error_status :: "nat \<Rightarrow> bool" where
  "error_status s \<longleftrightarrow> 400 \<le> s \<and> s < 600"

text \<open>
  \<^verbatim>\<open>
  def download_file(url):
      local_filename = local_path(url)
      with requests.get(url, stream=True) as r:
          r.raise_for_status()
          with open(local_filename, 'wb') as f:
              for i, chunk in enumerate(r.iter_content(chunk_size=8192), 1):
                  ...
              if i % 80 != 0:
                  print("")
      return local_filename
  \<close>
  After the loop \<open>i\<close> is the number of chunks; with no chunk at all it was never bound,
  and reading it raises \<^verbatim>\<open>UnboundLocalError\<close>.
\<close>

definition download_file :: "env \<Rightarrow> string \<Rightarrow> world \<Rightarrow> (error + string) \<times> world" where
  "download_file e url w =
     (let local_filename = local_path url;
          w1 = emit (HttpGet url) w
      in case http e url of
           None \<Rightarrow> (Inl ConnectionError, w1)
         | Some r \<Rightarrow>
             if error_status (status r) then (Inl (HTTPError (status r)), w1)
             else (case open_w local_filename w1 of
                     Inl err \<Rightarrow> (Inl err, w1)
                   | Inr w2 \<Rightarrow>
                       (let w3 = write_chunks local_filename 1 (chunks r) w2
                        in if chunks r = [] then (Inl UnboundLocalError, w3)
                           else if length (chunks r) mod 80 \<noteq> 0
                             then (Inr local_filename, emit (Stdout [LF]) w3)
                             else (Inr local_filename, w3))))"

text \<open>
  The inner loop of \<^verbatim>\<open>extract_zip_file\<close>, over the lines of one entry:
  \<^verbatim>\<open>
  for i in input:
      output.write(i.decode("utf-8"))
  \<close>
\<close>

fun write_lines :: "string \<Rightarrow> string list \<Rightarrow> world \<Rightarrow> (error + unit) \<times> world" where
  "write_lines p [] w = (Inr (), w)"
| "write_lines p (l # ls) w =
     (if utf8_valid l then write_lines p ls (append_file p l w)
      else (Inl UnicodeDecodeError, w))"

text \<open>
  The outer loop, over \<^verbatim>\<open>zfile.namelist()\<close>:
  \<^verbatim>\<open>
  with zfile.open(finfo, "r") as input:
      with open(finfo, "w") as output:
          ...
  files.append(finfo)
  \<close>
\<close>

fun extract_entries ::
  "(string \<times> string) list \<Rightarrow> string list \<Rightarrow> world \<Rightarrow> (error + string list) \<times> world" where
  "extract_entries [] files w = (Inr files, w)"
| "extract_entries ((finfo, content) # rest) files w =
     (case open_w finfo w of
        Inl err \<Rightarrow> (Inl err, w)
      | Inr w1 \<Rightarrow>
          (case write_lines finfo (keep_lines content) w1 of
             (Inl err, w2) \<Rightarrow> (Inl err, w2)
           | (Inr u, w2) \<Rightarrow> extract_entries rest (files @ [finfo]) w2))"

text \<open>
  \<^verbatim>\<open>
  def extract_zip_file(filepath):
      zfile = zipfile.ZipFile(filepath)
      files=[]
      for finfo in zfile.namelist():
          ...
      return files
  \<close>
\<close>

definition extract_zip_file :: "env \<Rightarrow> string \<Rightarrow> world \<Rightarrow> (error + string list) \<times> world" where
  "extract_zip_file e filepath w =
     (let w1 = emit (Unzip filepath) w
      in case read_file filepath w1 of
           Inl err \<Rightarrow> (Inl err, w1)
         | Inr bytes \<Rightarrow>
             (case unzip e bytes of
                None \<Rightarrow> (Inl BadZipFile, w1)
              | Some entries \<Rightarrow> extract_entries entries [] w1))"

subsection \<open>MongoDB: one insert and one aggregation\<close>

definition coll_docs :: "world \<Rightarrow> string \<times> string \<Rightarrow> doc list" where
  "coll_docs w c = (case db w c of None \<Rightarrow> [] | Some ds \<Rightarrow> ds)"

text \<open>
  BSON has no integer wider than 64 bits: \<^verbatim>\<open>pymongo\<close> raises \<^verbatim>\<open>OverflowError\<close> when it
  encodes a larger Python \<^verbatim>\<open>int\<close>.
\<close>

fun int64_ok :: "bson \<Rightarrow> bool" where
  "int64_ok (BInt i) = (- (2 ^ 63) \<le> i \<and> i < 2 ^ 63)"
| "int64_ok v = True"

text \<open>\<^verbatim>\<open>collection.insert_one(d)\<close>, for a flat document \<open>d\<close>.\<close>

definition insert_one :: "env \<Rightarrow> string \<times> string \<Rightarrow> doc \<Rightarrow> world \<Rightarrow> (error + unit) \<times> world" where
  "insert_one e c d w =
     (if \<not> mongo_up e then (Inl ServerSelectionTimeoutError, w)
      else if \<not> list_all int64_ok (map snd d) then (Inl OverflowError, w)
      else (Inr (), w\<lparr>db := (db w)(c \<mapsto> coll_docs w c @ [d])\<rparr>))"

text \<open>
  The query \<^verbatim>\<open>{field: {"$type": "double"}}\<close> selects a document whose field holds a
  double, or an array with a double among its elements.
\<close>

fun is_double :: "bson \<Rightarrow> bool" where
  "is_double (BDouble x) = True"
| "is_double v = False"

fun type_double :: "bson \<Rightarrow> bool" where
  "type_double (BDouble x) = True"
| "type_double (BArray vs) = list_ex is_double vs"
| "type_double v = False"

definition has_double :: "doc \<Rightarrow> string \<Rightarrow> bool" where
  "has_double d f = (case map_of d f of None \<Rightarrow> False | Some v \<Rightarrow> type_double v)"

definition double_cond :: "string \<times> bson \<Rightarrow> bool" where
  "double_cond fc \<longleftrightarrow> snd fc = BDoc [(''$type'', BString ''double'')]"

text \<open>
  The stage \<^verbatim>\<open>$match\<close>, for a query that is a conjunction of such conditions; \<open>None\<close> for
  any other query (the program sends no other).
\<close>

definition match_stage :: "bson \<Rightarrow> doc list \<Rightarrow> doc list option" where
  "match_stage spec docs =
     (case spec of
        BDoc conds \<Rightarrow>
          if list_all double_cond conds
          then Some (filter (\<lambda>d. list_all (\<lambda>fc. has_double d (fst fc)) conds) docs)
          else None
      | _ \<Rightarrow> None)"

text \<open>
  Aggregation expressions: a string that starts with \<^verbatim>\<open>$\<close> is the path of a field of
  the document (\<open>None\<close> when the document has no such field), any other string is
  itself; in an array a missing field becomes \<^verbatim>\<open>null\<close>, in a document it is left out.
\<close>

fun eval_expr :: "doc \<Rightarrow> bson \<Rightarrow> bson option" where
  "eval_expr d (BString s) =
     (case s of
        [] \<Rightarrow> Some (BString s)
      | c # path \<Rightarrow> if c = CHR ''$'' then map_of d path else Some (BString s))"
| "eval_expr d (BArray es) =
     Some (BArray (map (\<lambda>x. case eval_expr d x of None \<Rightarrow> BNull | Some v \<Rightarrow> v) es))"
| "eval_expr d (BDoc kvs) =
     Some (BDoc (concat (map (\<lambda>kx. case eval_expr d (snd kx) of
                                       None \<Rightarrow> []
                                     | Some v \<Rightarrow> [(fst kx, v)]) kvs)))"
| "eval_expr d v = Some v"

fun set_field :: "string \<Rightarrow> bson \<Rightarrow> doc \<Rightarrow> doc" where
  "set_field k v [] = [(k, v)]"
| "set_field k v (p # ps) = (if fst p = k then (k, v) # ps else p # set_field k v ps)"

text \<open>
  The stage \<^verbatim>\<open>$addFields\<close>: every expression is computed on the incoming document, and
  the fields are set in the order of the specification.
\<close>

definition add_fields :: "(string \<times> bson) list \<Rightarrow> doc \<Rightarrow> doc" where
  "add_fields flds d =
     foldl (\<lambda>acc kx. case eval_expr d (snd kx) of
                        None \<Rightarrow> acc
                      | Some v \<Rightarrow> set_field (fst kx) v acc) d flds"

text \<open>
  A pipeline of the three stages the program uses. \<^verbatim>\<open>$out\<close> has to be the last stage;
  it replaces the named collection of the same database by the documents that reach it.
\<close>

fun run_pipeline ::
  "string \<Rightarrow> bson list \<Rightarrow> doc list \<Rightarrow> world \<Rightarrow> (error + doc list) \<times> world" where
  "run_pipeline dbname [] docs w = (Inr docs, w)"
| "run_pipeline dbname (stage # rest) docs w =
     (case stage of
        BDoc [(opr, spec)] \<Rightarrow>
          if opr = ''$match'' then
            (case match_stage spec docs of
               None \<Rightarrow> (Inl OperationFailure, w)
             | Some ds \<Rightarrow> run_pipeline dbname rest ds w)
          else if opr = ''$addFields'' then
            (case spec of
               BDoc flds \<Rightarrow> run_pipeline dbname rest (map (add_fields flds) docs) w
             | _ \<Rightarrow> (Inl OperationFailure, w))
          else if opr = ''$out'' then
            (case spec of
               BString name \<Rightarrow>
                 if rest = [] then (Inr [], w\<lparr>db := (db w)((dbname, name) \<mapsto> docs)\<rparr>)
                 else (Inl OperationFailure, w)
             | _ \<Rightarrow> (Inl OperationFailure, w))
          else (Inl OperationFailure, w)
      | _ \<Rightarrow> (Inl OperationFailure, w))"

text \<open>\<^verbatim>\<open>db[coll].aggregate(pipeline)\<close>.\<close>

definition aggregate ::
  "env \<Rightarrow> string \<times> string \<Rightarrow> bson list \<Rightarrow> world \<Rightarrow> (error + doc list) \<times> world" where
  "aggregate e c pipeline w =
     (if \<not> mongo_up e then (Inl ServerSelectionTimeoutError, w)
      else run_pipeline (fst c) pipeline (coll_docs w c) w)"

subsection \<open>The script\<close>

datatype ziplist_choice = Master | Incremental

record args =
  mongodb :: string
  ziplist :: ziplist_choice
  master :: string
  incremental :: string
  database :: string
  collection :: string
  local :: "string option"
  overwrite :: bool
  download :: bool
  mapgeo :: bool

datatype outcome = Exit nat | Raised error

text \<open>
  \<^verbatim>\<open>
  db=client[args.database]
  files_collection = db["files"]
  events__collection =db[args.collection]
  \<close>
  A collection is named by its database and its own name.
\<close>

definition files_collection :: "args \<Rightarrow> string \<times> string" where
  "files_collection a = (database a, ''files'')"

definition events_collection :: "args \<Rightarrow> string \<times> string" where
  "events_collection a = (database a, collection a)"

text \<open>
  \<^verbatim>\<open>
  matcher = { "$match" : {"ActionGeo_Lat": { "$type" : "double"},
                          "ActionGeo_Lon" : { "$type" : "double"},
                          "Actor1Geo_Lat" : { "$type" : "double"},
                          "Actor1Geo_Lon" : { "$type" : "double"},
                          "Actor2Geo_lat" : { "$type" : "double"},
                          "Actor2Geo_Lon" : { "$type" : "double"}}}
  \<close>
\<close>

definition matcher_query :: "(string \<times> bson) list" where
  "matcher_query =
     [(''ActionGeo_Lat'', BDoc [(''$type'', BString ''double'')]),
      (''ActionGeo_Lon'', BDoc [(''$type'', BString ''double'')]),
      (''Actor1Geo_Lat'', BDoc [(''$type'', BString ''double'')]),
      (''Actor1Geo_Lon'', BDoc [(''$type'', BString ''double'')]),
      (''Actor2Geo_lat'', BDoc [(''$type'', BString ''double'')]),
      (''Actor2Geo_Lon'', BDoc [(''$type'', BString ''double'')])]"

definition matcher :: bson where
  "matcher = BDoc [(''$match'', BDoc matcher_query)]"

text \<open>
  \<^verbatim>\<open>
  adder = {"$addFields": {
      "Actor1Geo": {"type": "Point", "coordinates": ["$Actor1Geo_Long", "$Actor1Geo_Lat"]},
      "Actor2Geo": {"type": "Point", "coordinates": ["$Actor2Geo_Long", "$Actor2Geo_Lat"]},
      "ActionGeo": {"type": "Point", "coordinates": ["$ActionGeo_Long", "$ActionGeo_Lat"]}}}
  \<close>
\<close>

definition adder_flds :: "(string \<times> bson) list" where
  "adder_flds =
     [(''Actor1Geo'',
         BDoc [(''type'', BString ''Point''),
               (''coordinates'', BArray [BString ''$Actor1Geo_Long'', BString ''$Actor1Geo_Lat''])]),
      (''Actor2Geo'',
         BDoc [(''type'', BString ''Point''),
               (''coordinates'', BArray [BString ''$Actor2Geo_Long'', BString ''$Actor2Geo_Lat''])]),
      (''ActionGeo'',
         BDoc [(''type'', BString ''Point''),
               (''coordinates'', BArray [BString ''$ActionGeo_Long'', BString ''$ActionGeo_Lat''])])]"

definition adder :: bson where
  "adder = BDoc [(''$addFields'', BDoc adder_flds)]"

text \<open>
  \<^verbatim>\<open>events__collection.aggregate([matcher, adder, {"$out" : "events_geo"}])\<close>
\<close>

definition geo_pipeline :: "bson list" where
  "geo_pipeline = [matcher, adder, BDoc [(''$out'', BString ''events_geo'')]]"

text \<open>
  The branch \<^verbatim>\<open>if args.mapgeo:\<close>, up to its \<^verbatim>\<open>sys.exit(0)\<close>.
\<close>

definition map_geo :: "env \<Rightarrow> args \<Rightarrow> world \<Rightarrow> outcome \<times> world" where
  "map_geo e a w =
     (let w1 = py_print ''Mapping lat/lon to GeoJSON'' w
      in case aggregate e (events_collection a) geo_pipeline w1 of
           (Inl err, w2) \<Rightarrow> (Raised err, w2)
         | (Inr cursor, w2) \<Rightarrow> (Exit 0, w2))"

definition ziplist_str :: "ziplist_choice \<Rightarrow> string" where
  "ziplist_str z = (case z of Master \<Rightarrow> ''master'' | Incremental \<Rightarrow> ''incremental'')"

definition pad2 :: "nat \<Rightarrow> string" where
  "pad2 n = (if n < 10 then ''0'' @ show_nat n else show_nat n)"

text \<open>\<^verbatim>\<open>strftime('%m-%d-%Y-%H-%M-%S')\<close>, for a year of four digits.\<close>

definition strftime :: "datetime \<Rightarrow> string" where
  "strftime t =
     pad2 (month t) @ ''-'' @ pad2 (day t) @ ''-'' @ show_nat (year t) @ ''-'' @
     pad2 (hour t) @ ''-'' @ pad2 (minute t) @ ''-'' @ pad2 (second t)"

text \<open>
  The branch \<^verbatim>\<open>elif args.ziplist:\<close> (the two messages are exchanged in the source):
  \<^verbatim>\<open>
  r = requests.get(url, allow_redirects=True)
  filename=f"gdelt_{args.ziplist}-file-{datetime.utcnow().strftime(...)}.txt"
  print(f"Creating local master file: '{filename}'")
  open(filename, 'w').write(r.content.decode("utf-8"))
  \<close>
  The status of the response is not looked at.
\<close>

definition fetch_manifest :: "env \<Rightarrow> args \<Rightarrow> world \<Rightarrow> (error + string) \<times> world" where
  "fetch_manifest e a w =
     (let url = (if ziplist a = Master then master a else incremental a);
          w1 = (if ziplist a = Master
                then py_print (''Getting incremental file from '' @ quoted url) w
                else py_print (''Getting master file from '' @ quoted url) w);
          w2 = emit (HttpGet url) w1
      in case http e url of
           None \<Rightarrow> (Inl ConnectionError, w2)
         | Some r \<Rightarrow>
             (let filename = ''gdelt_'' @ ziplist_str (ziplist a) @ ''-file-''
                               @ strftime (utcnow e) @ ''.txt'';
                  w3 = py_print (''Creating local master file: '' @ quoted filename) w2
              in case open_w filename w3 of
                   Inl err \<Rightarrow> (Inl err, w3)
                 | Inr w4 \<Rightarrow>
                     if utf8_valid (concat (chunks r))
                     then (Inr filename, append_file filename (concat (chunks r)) w4)
                     else (Inl UnicodeDecodeError, w4)))"

text \<open>
  \<^verbatim>\<open>
  if args.local:
      if os.path.isfile(args.local):
          filename=args.local
      else:
          print(f"'{args.local}' does not exist")
          sys.exit(1)
  elif args.ziplist:
      ...
  \<close>
  \<^verbatim>\<open>args.local\<close> is true when the flag is given with a value that is not the empty
  string; \<^verbatim>\<open>args.ziplist\<close> is always true.
\<close>

definition local_given :: "args \<Rightarrow> bool" where
  "local_given a \<longleftrightarrow> (case local a of None \<Rightarrow> False | Some p \<Rightarrow> p \<noteq> [])"

definition resolve_manifest :: "env \<Rightarrow> args \<Rightarrow> world \<Rightarrow> (outcome + string) \<times> world" where
  "resolve_manifest e a w =
     (if local_given a then
        (if os_path_isfile w (the (local a)) then (Inr (the (local a)), w)
         else (Inl (Exit 1), py_print (quoted (the (local a)) @ '' does not exist'') w))
      else (case fetch_manifest e a w of
              (Inl err, w1) \<Rightarrow> (Inl (Raised err), w1)
            | (Inr filename, w1) \<Rightarrow> (Inr filename, w1)))"

text \<open>
  The first half of the loop body: reuse the local archive, or download it, check it and
  record it. \<open>Inr (Some f)\<close>: go on to unpack \<open>f\<close>; \<open>Inr None\<close>: the \<^verbatim>\<open>continue\<close>.
  \<^verbatim>\<open>
  if os.path.exists(local_path(zip)) and not args.overwrite:
      print( f"File '{local_path(zip)}'exists locally")
      local_zip_file = local_path(zip)
  else:
      print(f"Downloading:'{zip}'")
      print(f"size:{size}")
      print(f"md5:{md5}")
      local_zip_file = download_file(zip)
      print(f"created: '{local_zip_file}'")
      computed_md5 = compute_md5(local_zip_file)
      if computed_md5 == md5:
          files_collection.insert_one({ "ts"     : datetime.utcnow(),
                                        "remote" : zip,
                                        "local"  : local_zip_file,
                                        "size"   : size,
                                         "md5"   : md5})
      else:
          print(f"'{md5}' checksum for doesn't match computed checksum: {computed_md5} for {local_zip_file}")
          continue
  \<close>
\<close>

definition download_record :: "env \<Rightarrow> string \<Rightarrow> string \<Rightarrow> int \<Rightarrow> string \<Rightarrow> doc" where
  "download_record e zip_url local_zip_file sz md5 =
     [(''ts'', BDate (utcnow e)),
      (''remote'', BString zip_url),
      (''local'', BString local_zip_file),
      (''size'', BInt sz),
      (''md5'', BString md5)]"

definition mismatch_warning :: "string \<Rightarrow> string \<Rightarrow> string \<Rightarrow> string" where
  "mismatch_warning md5 computed_md5 local_zip_file =
     quoted md5 @ '' checksum for doesn'' @ [CHR 0x27] @ ''t match computed checksum: ''
       @ computed_md5 @ '' for '' @ local_zip_file"

definition fetch_and_verify ::
  "env \<Rightarrow> args \<Rightarrow> int \<Rightarrow> string \<Rightarrow> string \<Rightarrow> world \<Rightarrow> (error + string option) \<times> world" where
  "fetch_and_verify e a sz md5 zip_url w =
     (if os_path_exists w (local_path zip_url) \<and> \<not> overwrite a then
        (Inr (Some (local_path zip_url)),
         py_print (''File '' @ quoted (local_path zip_url) @ ''exists locally'') w)
      else
        (let w1 = py_print (''Downloading:'' @ quoted zip_url) w;
             w2 = py_print (''size:'' @ show_int sz) w1;
             w3 = py_print (''md5:'' @ md5) w2
         in case download_file e zip_url w3 of
              (Inl err, w4) \<Rightarrow> (Inl err, w4)
            | (Inr local_zip_file, w4) \<Rightarrow>
                (let w5 = py_print (''created: '' @ quoted local_zip_file) w4
                 in case compute_md5 local_zip_file w5 of
                      (Inl err, w6) \<Rightarrow> (Inl err, w6)
                    | (Inr computed_md5, w6) \<Rightarrow>
                        if computed_md5 = md5 then
                          (case insert_one e (files_collection a)
                                  (download_record e zip_url local_zip_file sz md5) w6 of
                             (Inl err, w7) \<Rightarrow> (Inl err, w7)
                           | (Inr u, w7) \<Rightarrow> (Inr (Some local_zip_file), w7))
                        else
                          (Inr None,
                           py_print (mismatch_warning md5 computed_md5 local_zip_file) w6))))"

text \<open>
  The second half:
  \<^verbatim>\<open>
  print(f"Unzipping: '{local_zip_file}'")
  local_csv_files = extract_zip_file(local_zip_file)
  for i in local_csv_files:
      print(l)
  \<close>
\<close>

definition unzip_and_list ::
  "env \<Rightarrow> string \<Rightarrow> string \<Rightarrow> world \<Rightarrow> (error + unit) \<times> world" where
  "unzip_and_list e l local_zip_file w =
     (let w1 = py_print (''Unzipping: '' @ quoted local_zip_file) w
      in case extract_zip_file e local_zip_file w1 of
           (Inl err, w2) \<Rightarrow> (Inl err, w2)
         | (Inr local_csv_files, w2) \<Rightarrow>
             (Inr (), foldl (\<lambda>acc i. py_print l acc) w2 local_csv_files))"

text \<open>
  One pass through the body of \<^verbatim>\<open>for l in file_list:\<close>, which starts with
  \<^verbatim>\<open>
  size, md5, zip = l.split()
  size = int(size)
  md5 = str(md5)
  \<close>
  Both the unpacking of anything but three fields and \<^verbatim>\<open>int\<close> of a field that is no
  number raise \<^verbatim>\<open>ValueError\<close>.
\<close>

definition process_line :: "env \<Rightarrow> args \<Rightarrow> string \<Rightarrow> world \<Rightarrow> (error + unit) \<times> world" where
  "process_line e a l w =
     (case split_ws l of
        [size_field, md5, zip_url] \<Rightarrow>
          (case py_int size_field of
             None \<Rightarrow> (Inl ValueError, w)
           | Some sz \<Rightarrow>
               (case fetch_and_verify e a sz md5 zip_url w of
                  (Inl err, w1) \<Rightarrow> (Inl err, w1)
                | (Inr None, w1) \<Rightarrow> (Inr (), w1)
                | (Inr (Some local_zip_file), w1) \<Rightarrow> unzip_and_list e l local_zip_file w1))
      | _ \<Rightarrow> (Inl ValueError, w))"

text \<open>The loop: an exception in one pass ends it, a \<^verbatim>\<open>continue\<close> does not.\<close>

fun download_loop :: "env \<Rightarrow> args \<Rightarrow> string list \<Rightarrow> world \<Rightarrow> (error + unit) \<times> world" where
  "download_loop e a [] w = (Inr (), w)"
| "download_loop e a (l # ls) w =
     (case process_line e a l w of
        (Inl err, w1) \<Rightarrow> (Inl err, w1)
      | (Inr u, w1) \<Rightarrow> download_loop e a ls w1)"

text \<open>
  The block \<^verbatim>\<open>if args.download:\<close>.
\<close>

definition download_all :: "env \<Rightarrow> args \<Rightarrow> string \<Rightarrow> world \<Rightarrow> (error + unit) \<times> world" where
  "download_all e a filename w =
     (case read_text_lines filename w of
        Inl err \<Rightarrow> (Inl err, w)
      | Inr file_list \<Rightarrow> download_loop e a file_list w)"

text \<open>
  The script from \<^verbatim>\<open>args = parser.parse_args()\<close> to its end. A run that reaches the end
  of the script leaves with status 0.
\<close>

definition main :: "env \<Rightarrow> args \<Rightarrow> world \<Rightarrow> outcome \<times> world" where
  "main e a w =
     (if mapgeo a then map_geo e a w
      else (case resolve_manifest e a w of
              (Inl oc, w1) \<Rightarrow> (oc, w1)
            | (Inr filename, w1) \<Rightarrow>
                if download a then
                  (case download_all e a filename w1 of
                     (Inl err, w2) \<Rightarrow> (Raised err, w2)
                   | (Inr u, w2) \<Rightarrow> (Exit 0, w2))
                else (Exit 0, w1)))"

subsection \<open>Reading the trace\<close>

text \<open>The URLs requested, the files hashed and the archives unpacked, in order.\<close>

fun http_gets :: "event list \<Rightarrow> string list" where
  "http_gets [] = []"
| "http_gets (HttpGet u # t) = u # http_gets t"
| "http_gets (ev # t) = http_gets t"

fun md5_calls :: "event list \<Rightarrow> string list" where
  "md5_calls [] = []"
| "md5_calls (Md5Of f # t) = f # md5_calls t"
| "md5_calls (ev # t) = md5_calls t"

fun unzips :: "event list \<Rightarrow> string list" where
  "unzips [] = []"
| "unzips (Unzip f # t) = f # unzips t"
| "unzips (ev # t) = unzips t"

fun stdout_lines :: "event list \<Rightarrow> string list" where
  "stdout_lines [] = []"
| "stdout_lines (Stdout s # t) = s # stdout_lines t"
| "stdout_lines (ev # t) = stdout_lines t"

text \<open>
  What the first two stages of the pipeline make of a collection: the documents that pass
  the query of \<open>matcher\<close>, each with the fields of \<open>adder\<close> set.
\<close>

definition geo_docs :: "doc list \<Rightarrow> doc list" where
  "geo_docs ds =
     map (add_fields adder_flds)
       (filter (\<lambda>d. list_all (\<lambda>fc. has_double d (fst fc)) matcher_query) ds)"

subsection \<open>Concrete runs\<close>

text \<open>
  The flags as \<^verbatim>\<open>argparse\<close> fills them in when none is given:
  \<^verbatim>\<open>
  parser.add_argument("--mongodb", default="mongodb://localhost:27017", ...)
  parser.add_argument("--ziplist", choices=["master", "incremental"], default="incremental", ...)
  parser.add_argument("--master", default="http://data.gdeltproject.org/gdeltv2/masterfilelist.txt", ...)
  parser.add_argument("--incremental", default="http://data.gdeltproject.org/gdeltv2/lastupdate.txt", ...)
  parser.add_argument("--database", default="GDELT", ...)
  parser.add_argument("--collection", default="events", ...)
  parser.add_argument("--local", ...)
  parser.add_argument("--overwrite", default=False, action="store_true", ...)
  parser.add_argument("--download", default=False, action="store_true", ...)
  parser.add_argument("--mapgeo", default=False, action="store_true", ...)
  \<close>
\<close>

definition default_args :: args where
  "default_args =
     \<lparr>mongodb = ''mongodb://localhost:27017'',
      ziplist = Incremental,
      master = ''http://data.gdeltproject.org/gdeltv2/masterfilelist.txt'',
      incremental = ''http://data.gdeltproject.org/gdeltv2/lastupdate.txt'',
      database = ''GDELT'',
      collection = ''events'',
      local = None,
      overwrite = False,
      download = False,
      mapgeo = False\<rparr>"

text \<open>
  A small environment for the concrete runs below. One URL serves the five bytes
  \<^verbatim>\<open>hello\<close> (whose MD5 is \<^verbatim>\<open>5d41402abc4b2a76b9719d911017c592\<close>) in one chunk, a second one
  serves the empty zip archive (the 22 bytes of an end-of-central-directory record, MD5
  \<^verbatim>\<open>76cdb2bad9582d23c1f6f4d868218d6c\<close>), and every other URL answers 404 with the body
  \<^verbatim>\<open>Not Found\<close>. The zip decoder knows the empty archive, which has no entry, and rejects
  everything else, as \<^verbatim>\<open>zipfile\<close> does with \<^verbatim>\<open>hello\<close>. MongoDB is reachable.
\<close>

definition ex_url :: string where
  "ex_url = ''http://example.org/gdelt_20240101.zip''"

definition ex_zip :: string where
  "ex_zip = ''gdelt_20240101.zip''"

definition hello_md5 :: string where
  "hello_md5 = ''5d41402abc4b2a76b9719d911017c592''"

definition hello_md5_upper :: string where
  "hello_md5_upper = ''5D41402ABC4B2A76B9719D911017C592''"

definition ex_line :: string where
  "ex_line = ''5 5d41402abc4b2a76b9719d911017c592 http://example.org/gdelt_20240101.zip''"

definition ex_line_upper :: string where
  "ex_line_upper = ''5 5D41402ABC4B2A76B9719D911017C592 http://example.org/gdelt_20240101.zip''"

definition empty_zip :: string where
  "empty_zip = [CHR 0x50, CHR 0x4B, CHR 0x05, CHR 0x06] @ replicate 18 (CHR 0x00)"

definition ex_time :: datetime where
  "ex_time = \<lparr>year = 2024, month = 1, day = 2, hour = 3, minute = 4, second = 5\<rparr>"

definition hello_response :: response where
  "hello_response = \<lparr>status = 200, chunks = [''hello'']\<rparr>"

definition not_found_response :: response where
  "not_found_response = \<lparr>status = 404, chunks = [''Not Found'']\<rparr>"

definition empty_zip_url :: string where
  "empty_zip_url = ''http://example.org/empty.zip''"

definition empty_zip_name :: string where
  "empty_zip_name = ''empty.zip''"

definition empty_zip_md5 :: string where
  "empty_zip_md5 = ''76cdb2bad9582d23c1f6f4d868218d6c''"

definition empty_zip_response :: response where
  "empty_zip_response = \<lparr>status = 200, chunks = [empty_zip]\<rparr>"

definition ex_env :: env where
  "ex_env =
     \<lparr>http = (\<lambda>u. if u = ex_url then Some hello_response
                   else if u = empty_zip_url then Some empty_zip_response
                   else Some not_found_response),
      unzip = (\<lambda>b. if b = empty_zip then Some [] else None),
      utcnow = ex_time,
      mongo_up = True\<rparr>"

definition empty_world :: world where
  "empty_world = \<lparr>fs = Map.empty, db = Map.empty, trace = []\<rparr>"

text \<open>
  A directory with a manifest of two lines: the first names \<^verbatim>\<open>hello\<close> with its checksum in
  upper case, the second the empty archive with its checksum.
\<close>

definition empty_zip_line :: string where
  "empty_zip_line = ''22 76cdb2bad9582d23c1f6f4d868218d6c http://example.org/empty.zip''"

definition two_line_manifest :: string where
  "two_line_manifest = ex_line_upper @ [LF] @ empty_zip_line @ [LF]"

definition manifest_world :: world where
  "manifest_world =
     \<lparr>fs = [''manifest.txt'' \<mapsto> File two_line_manifest], db = Map.empty, trace = []\<rparr>"

definition local_args :: args where
  "local_args = default_args\<lparr>local := Some ''manifest.txt'', download := True\<rparr>"

text \<open>A directory with the archive already there, as an empty zip file.\<close>

definition archive_world :: world where
  "archive_world = \<lparr>fs = [ex_zip \<mapsto> File empty_zip], db = Map.empty, trace = []\<rparr>"

text \<open>
  Flags for the runs below: \<^verbatim>\<open>--mapgeo\<close>; \<^verbatim>\<open>--collection foo --mapgeo\<close>;
  \<^verbatim>\<open>--local missing.txt --download\<close>; \<^verbatim>\<open>--local "" --download\<close>; and
  \<^verbatim>\<open>--local missing.txt --download --mapgeo\<close>.
\<close>

definition mapgeo_args :: args where
  "mapgeo_args = default_args\<lparr>mapgeo := True\<rparr>"

definition foo_args :: args where
  "foo_args = default_args\<lparr>collection := ''foo'', mapgeo := True\<rparr>"

definition missing_args :: args where
  "missing_args = default_args\<lparr>local := Some ''missing.txt'', download := True\<rparr>"

definition empty_local_args :: args where
  "empty_local_args = default_args\<lparr>local := Some [], download := True\<rparr>"

definition missing_mapgeo_args :: args where
  "missing_mapgeo_args =
     default_args\<lparr>local := Some ''missing.txt'', download := True, mapgeo := True\<rparr>"

text \<open>
  Two event documents. The first has exactly the six fields the query of \<open>matcher\<close>
  names, each a double. The second has the six fields the expressions of \<open>adder\<close> read,
  each a double; these are the names of the GDELT columns.
\<close>

definition six_field_doc :: doc where
  "six_field_doc =
     [(''ActionGeo_Lat'', BDouble 1), (''ActionGeo_Lon'', BDouble 2),
      (''Actor1Geo_Lat'', BDouble 3), (''Actor1Geo_Lon'', BDouble 4),
      (''Actor2Geo_lat'', BDouble 5), (''Actor2Geo_Lon'', BDouble 6)]"

definition gdelt_doc :: doc where
  "gdelt_doc =
     [(''ActionGeo_Lat'', BDouble 1), (''ActionGeo_Long'', BDouble 2),
      (''Actor1Geo_Lat'', BDouble 3), (''Actor1Geo_Long'', BDouble 4),
      (''Actor2Geo_Lat'', BDouble 5), (''Actor2Geo_Long'', BDouble 6)]"

definition geo_world :: world where
  "geo_world =
     \<lparr>fs = Map.empty, db = [(''GDELT'', ''events'') \<mapsto> [six_field_doc, gdelt_doc]], trace = []\<rparr>"

definition foo_world :: world where
  "foo_world =
     \<lparr>fs = Map.empty, db = [(''GDELT'', ''foo'') \<mapsto> [six_field_doc]], trace = []\<rparr>"

text \<open>
  What the specification calls a case-insensitive comparison of hexadecimal strings:
  two strings are equal once the letters \<^verbatim>\<open>A\<close> to \<^verbatim>\<open>F\<close> are read as \<^verbatim>\<open>a\<close> to \<^verbatim>\<open>f\<close>. This
  is the specification's relation, not a function of the program.
\<close>

definition lower_hex :: "char \<Rightarrow> char" where
  "lower_hex c =
     (if c = CHR ''A'' then CHR ''a'' else if c = CHR ''B'' then CHR ''b''
      else if c = CHR ''C'' then CHR ''c'' else if c = CHR ''D'' then CHR ''d''
      else if c = CHR ''E'' then CHR ''e'' else if c = CHR ''F'' then CHR ''f'' else c)"

definition spec_hex_equal :: "string \<Rightarrow> string \<Rightarrow> bool" where
  "spec_hex_equal x y \<longleftrightarrow> map lower_hex x = map lower_hex y"

section \<open>Properties of the model\<close>

text \<open>
  Which part of the world each function leaves alone, and what it adds to the trace.
\<close>

subsection \<open>\<open>local_path\<close> is the final segment\<close>

lemma length_split_on: "length (split_on sep s) = Suc (length (filter (\<lambda>c. c = sep) s))"
  by (induction s) (auto split: list.splits)

lemma split_on_no_sep: "sep \<notin> set s \<Longrightarrow> split_on sep s = [s]"
  by (induction s) auto

lemma last_split_on_Cons:
  "last (split_on sep (c # s)) = (if sep \<in> set s \<or> c = sep then last (split_on sep s) else c # s)"
proof (cases "split_on sep s")
  case Nil
  with length_split_on [of sep s] show ?thesis by simp
next
  case (Cons x xs)
  show ?thesis
  proof (cases "sep \<in> set s")
    case True
    then have "filter (\<lambda>c. c = sep) s \<noteq> []" by (auto simp: filter_empty_conv)
    with length_split_on [of sep s] Cons have "xs \<noteq> []" by auto
    with Cons True show ?thesis by simp
  next
    case False
    with split_on_no_sep [of sep s] show ?thesis by simp
  qed
qed

lemma last_split_on_append:
  "last (split_on sep (pre @ sep # seg)) = last (split_on sep seg)"
  by (induction pre) (simp_all add: last_split_on_Cons del: split_on.simps(2))

lemma local_path_final_segment:
  "CHR ''/'' \<notin> set seg \<Longrightarrow> local_path (pre @ ''/'' @ seg) = seg"
  using last_split_on_append [of "CHR ''/''" pre seg]
  by (simp add: local_path_def split_on_no_sep)

lemma local_path_no_slash: "CHR ''/'' \<notin> set url \<Longrightarrow> local_path url = url"
  by (simp add: local_path_def split_on_no_sep)

subsection \<open>Frames\<close>

lemma emit_fs [simp]: "fs (emit ev w) = fs w"
  by (simp add: emit_def)

lemma emit_db [simp]: "db (emit ev w) = db w"
  by (simp add: emit_def)

lemma emit_trace [simp]: "trace (emit ev w) = trace w @ [ev]"
  by (simp add: emit_def)

lemma py_print_fs [simp]: "fs (py_print s w) = fs w"
  by (simp add: py_print_def)

lemma py_print_db [simp]: "db (py_print s w) = db w"
  by (simp add: py_print_def)

lemma py_print_trace [simp]: "trace (py_print s w) = trace w @ [Stdout (s @ [LF])]"
  by (simp add: py_print_def)

lemma coll_docs_cong: "db w' = db w \<Longrightarrow> coll_docs w' c = coll_docs w c"
  by (simp add: coll_docs_def)

lemma os_path_exists_cong: "fs w' = fs w \<Longrightarrow> os_path_exists w' p = os_path_exists w p"
  by (simp add: os_path_exists_def)

lemma http_gets_append [simp]: "http_gets (s @ t) = http_gets s @ http_gets t"
  by (induction s rule: http_gets.induct) simp_all

lemma md5_calls_append [simp]: "md5_calls (s @ t) = md5_calls s @ md5_calls t"
  by (induction s rule: md5_calls.induct) simp_all

lemma unzips_append [simp]: "unzips (s @ t) = unzips s @ unzips t"
  by (induction s rule: unzips.induct) simp_all

lemma stdout_lines_append [simp]: "stdout_lines (s @ t) = stdout_lines s @ stdout_lines t"
  by (induction s rule: stdout_lines.induct) simp_all

lemma append_file_db [simp]: "db (append_file p d w) = db w"
  by (simp add: append_file_def split: option.splits node.splits)

lemma append_file_trace [simp]: "trace (append_file p d w) = trace w"
  by (simp add: append_file_def split: option.splits node.splits)

lemma append_file_fs:
  "fs w p = Some (File c) \<Longrightarrow> fs (append_file p d w) = (fs w)(p \<mapsto> File (c @ d))"
  by (simp add: append_file_def)

lemma open_w_Inr:
  "open_w p w = Inr w' \<Longrightarrow> w' = w\<lparr>fs := (fs w)(p \<mapsto> File [])\<rparr>"
  by (auto simp: open_w_def split: if_splits option.splits node.splits)

lemma open_w_ok:
  "p \<noteq> [] \<Longrightarrow> fs w p \<noteq> Some Dir \<Longrightarrow> open_w p w = Inr (w\<lparr>fs := (fs w)(p \<mapsto> File [])\<rparr>)"
  by (auto simp: open_w_def split: option.splits node.splits)

lemma write_chunks_db [simp]: "db (write_chunks f i cs w) = db w"
  by (induction cs arbitrary: i w) (simp_all add: Let_def)

lemma write_chunks_http [simp]: "http_gets (trace (write_chunks f i cs w)) = http_gets (trace w)"
  by (induction cs arbitrary: i w) (simp_all add: Let_def)

lemma write_chunks_md5 [simp]: "md5_calls (trace (write_chunks f i cs w)) = md5_calls (trace w)"
  by (induction cs arbitrary: i w) (simp_all add: Let_def)

lemma write_chunks_unzips [simp]: "unzips (trace (write_chunks f i cs w)) = unzips (trace w)"
  by (induction cs arbitrary: i w) (simp_all add: Let_def)

lemma write_chunks_fs:
  "fs w f = Some (File c) \<Longrightarrow> fs (write_chunks f i cs w) = (fs w)(f \<mapsto> File (c @ concat cs))"
proof (induction cs arbitrary: i w c)
  case Nil
  then show ?case by (simp add: fun_upd_idem)
next
  case (Cons chunk rest)
  show ?case
  proof (cases "chunk = []")
    case True
    with Cons show ?thesis by simp
  next
    case False
    define w2 where "w2 = (if i mod 80 = 0 then emit (Stdout [LF]) (emit (Stdout ''.'') w)
                           else emit (Stdout ''.'') w)"
    have w2: "fs w2 = fs w" by (simp add: w2_def)
    then have "fs w2 f = Some (File c)" using Cons.prems by simp
    then have a: "fs (append_file f chunk w2) = (fs w)(f \<mapsto> File (c @ chunk))"
      using append_file_fs [of w2 f c chunk] w2 by simp
    then have "fs (append_file f chunk w2) f = Some (File (c @ chunk))" by simp
    then have "fs (write_chunks f (Suc i) rest (append_file f chunk w2)) =
                 (fs (append_file f chunk w2))(f \<mapsto> File ((c @ chunk) @ concat rest))"
      by (rule Cons.IH)
    also have "\<dots> = (fs w)(f \<mapsto> File (c @ concat (chunk # rest)))"
      by (simp only: a fun_upd_upd append_assoc concat.simps)
    finally show ?thesis using False by (simp add: Let_def w2_def)
  qed
qed

subsection \<open>\<open>download_file\<close>\<close>

lemma download_file_db: "download_file e url w = (r, w') \<Longrightarrow> db w' = db w"
  by (auto simp: download_file_def Let_def split: option.splits if_splits sum.splits
      dest!: open_w_Inr)

lemma download_file_trace:
  "download_file e url w = (r, w') \<Longrightarrow>
     http_gets (trace w') = http_gets (trace w) @ [url] \<and>
     md5_calls (trace w') = md5_calls (trace w) \<and>
     unzips (trace w') = unzips (trace w)"
  by (auto simp: download_file_def Let_def split: option.splits if_splits sum.splits
      dest!: open_w_Inr)

lemma download_file_ok:
  assumes "http e url = Some resp" and "\<not> error_status (status resp)"
    and "chunks resp \<noteq> []" and "local_path url \<noteq> []"
    and "fs w (local_path url) \<noteq> Some Dir"
  shows "\<exists>w'. download_file e url w = (Inr (local_path url), w') \<and>
               fs w' = (fs w)(local_path url \<mapsto> File (concat (chunks resp)))"
proof -
  let ?w1 = "emit (HttpGet url) w"
  let ?w2 = "?w1\<lparr>fs := (fs ?w1)(local_path url \<mapsto> File [])\<rparr>"
  have o: "open_w (local_path url) ?w1 = Inr ?w2"
    using assms(4,5) by (intro open_w_ok) simp_all
  have "fs ?w2 (local_path url) = Some (File [])" by simp
  from write_chunks_fs [OF this, of 1 "chunks resp"]
  have "fs (write_chunks (local_path url) 1 (chunks resp) ?w2) =
          (fs w)(local_path url \<mapsto> File (concat (chunks resp)))" by simp
  with assms(1-3) o show ?thesis
    by (simp add: download_file_def Let_def)
qed

lemma download_file_Inr:
  assumes "download_file e url w = (Inr f, w')"
  shows "f = local_path url \<and> local_path url \<noteq> [] \<and>
         (\<exists>resp. http e url = Some resp \<and> \<not> error_status (status resp) \<and>
                 chunks resp \<noteq> [] \<and>
                 fs w' = (fs w)(local_path url \<mapsto> File (concat (chunks resp))))"
proof -
  from assms obtain resp where r: "http e url = Some resp"
    by (auto simp: download_file_def Let_def split: option.splits)
  from assms r have ne: "\<not> error_status (status resp)" "chunks resp \<noteq> []"
    by (auto simp: download_file_def Let_def split: if_splits sum.splits)
  from assms r ne obtain w2 where o: "open_w (local_path url) (emit (HttpGet url) w) = Inr w2"
    by (auto simp: download_file_def Let_def split: sum.splits)
  then have lp: "local_path url \<noteq> []" "fs w (local_path url) \<noteq> Some Dir"
    by (auto simp: open_w_def split: if_splits option.splits node.splits)
  from download_file_ok [OF r ne lp] assms show ?thesis using r ne lp by auto
qed

lemma download_file_error_status:
  "http e url = Some resp \<Longrightarrow> error_status (status resp) \<Longrightarrow>
   download_file e url w = (Inl (HTTPError (status resp)), emit (HttpGet url) w)"
  by (simp add: download_file_def Let_def)

subsection \<open>\<open>compute_md5\<close>, \<open>insert_one\<close>, \<open>extract_zip_file\<close>\<close>

lemma compute_md5_frame:
  "compute_md5 f w = (r, w') \<Longrightarrow> fs w' = fs w \<and> db w' = db w \<and> trace w' = trace w @ [Md5Of f]"
  by (auto simp: compute_md5_def Let_def split: sum.splits)

lemma compute_md5_Inr:
  "compute_md5 f w = (Inr h, w') \<Longrightarrow> \<exists>c. fs w f = Some (File c) \<and> h = md5_hexdigest c"
  by (auto simp: compute_md5_def Let_def read_file_def
      split: sum.splits option.splits node.splits if_splits)

lemma compute_md5_ok:
  "f \<noteq> [] \<Longrightarrow> fs w f = Some (File c) \<Longrightarrow>
   compute_md5 f w = (Inr (md5_hexdigest c), emit (Md5Of f) w)"
  by (simp add: compute_md5_def Let_def read_file_def)

lemma insert_one_Inr:
  "insert_one e c d w = (Inr u, w') \<Longrightarrow>
     w' = w\<lparr>db := (db w)(c \<mapsto> coll_docs w c @ [d])\<rparr> \<and> mongo_up e"
  by (auto simp: insert_one_def split: if_splits)

lemma insert_one_Inl: "insert_one e c d w = (Inl err, w') \<Longrightarrow> w' = w"
  by (auto simp: insert_one_def split: if_splits)

lemma write_lines_frame:
  "write_lines p ls w = (r, w') \<Longrightarrow> db w' = db w \<and> trace w' = trace w"
  by (induction ls arbitrary: w) (auto split: if_splits)

lemma extract_entries_frame:
  "extract_entries es acc w = (r, w') \<Longrightarrow> db w' = db w \<and> trace w' = trace w"
proof (induction es arbitrary: acc w)
  case Nil
  then show ?case by simp
next
  case (Cons en es)
  obtain finfo content where en: "en = (finfo, content)" by (cases en)
  show ?case
  proof (cases "open_w finfo w")
    case (Inl err)
    with Cons.prems en show ?thesis by simp
  next
    case (Inr w1)
    then have w1: "db w1 = db w" "trace w1 = trace w" by (auto dest: open_w_Inr)
    obtain r2 w2 where wl: "write_lines finfo (keep_lines content) w1 = (r2, w2)"
      by (cases "write_lines finfo (keep_lines content) w1")
    then have w2: "db w2 = db w" "trace w2 = trace w"
      using write_lines_frame [OF wl] w1 by simp_all
    show ?thesis
    proof (cases r2)
      case (Inl err)
      with Cons.prems en Inr wl w2 show ?thesis by simp
    next
      case (Inr u)
      with Cons.prems en \<open>open_w finfo w = Inr w1\<close> wl
      have "extract_entries es (acc @ [finfo]) w2 = (r, w')" by simp
      from Cons.IH [OF this] w2 show ?thesis by simp
    qed
  qed
qed

lemma extract_zip_file_frame:
  "extract_zip_file e f w = (r, w') \<Longrightarrow> db w' = db w \<and> trace w' = trace w @ [Unzip f]"
  by (auto simp: extract_zip_file_def Let_def split: sum.splits option.splits
      dest!: extract_entries_frame)

lemma print_each_db [simp]: "db (foldl (\<lambda>acc i. py_print l acc) w xs) = db w"
  by (induction xs arbitrary: w) simp_all

lemma print_each_fs [simp]: "fs (foldl (\<lambda>acc i. py_print l acc) w xs) = fs w"
  by (induction xs arbitrary: w) simp_all

lemma print_each_http [simp]:
  "http_gets (trace (foldl (\<lambda>acc i. py_print l acc) w xs)) = http_gets (trace w)"
  by (induction xs arbitrary: w) simp_all

lemma print_each_md5 [simp]:
  "md5_calls (trace (foldl (\<lambda>acc i. py_print l acc) w xs)) = md5_calls (trace w)"
  by (induction xs arbitrary: w) simp_all

lemma print_each_unzips [simp]:
  "unzips (trace (foldl (\<lambda>acc i. py_print l acc) w xs)) = unzips (trace w)"
  by (induction xs arbitrary: w) simp_all

lemma unzip_and_list_frame:
  assumes "unzip_and_list e l f w = (r, w')"
  shows "db w' = db w \<and> http_gets (trace w') = http_gets (trace w) \<and>
         md5_calls (trace w') = md5_calls (trace w) \<and>
         unzips (trace w') = unzips (trace w) @ [f]"
proof -
  define w1 where "w1 = py_print (''Unzipping: '' @ quoted f) w"
  obtain r2 w2 where ex: "extract_zip_file e f w1 = (r2, w2)"
    by (cases "extract_zip_file e f w1")
  from extract_zip_file_frame [OF ex]
  have w2: "db w2 = db w" "http_gets (trace w2) = http_gets (trace w)"
    "md5_calls (trace w2) = md5_calls (trace w)" "unzips (trace w2) = unzips (trace w) @ [f]"
    by (simp_all add: w1_def)
  from assms have u: "(case extract_zip_file e f w1 of
           (Inl err, w2) \<Rightarrow> (Inl err, w2)
         | (Inr local_csv_files, w2) \<Rightarrow>
             (Inr (), foldl (\<lambda>acc i. py_print l acc) w2 local_csv_files)) = (r, w')"
    by (simp add: unzip_and_list_def Let_def w1_def)
  show ?thesis
  proof (cases r2)
    case (Inl err)
    with u ex have "w' = w2" by simp
    with w2 show ?thesis by simp
  next
    case (Inr fl)
    with u ex have "w' = foldl (\<lambda>acc i. py_print l acc) w2 fl" by simp
    with w2 show ?thesis by simp
  qed
qed

subsection \<open>The loop body\<close>

lemma fetch_and_verify_reuse:
  assumes "os_path_exists w (local_path zip_url)" and "\<not> overwrite a"
  shows "fetch_and_verify e a sz md5 zip_url w =
           (Inr (Some (local_path zip_url)),
            py_print (''File '' @ quoted (local_path zip_url) @ ''exists locally'') w)"
  using assms by (simp add: fetch_and_verify_def)

lemma fetch_and_verify_fresh:
  assumes fresh: "\<not> (os_path_exists w (local_path zip_url) \<and> \<not> overwrite a)"
    and fv: "fetch_and_verify e a sz md5 zip_url w = (r, w')"
  shows "http_gets (trace w') = http_gets (trace w) @ [zip_url] \<and>
         unzips (trace w') = unzips (trace w) \<and>
         ((\<exists>err. r = Inl err \<and> db w' = db w \<and> md5_calls (trace w') = md5_calls (trace w)) \<or>
          (\<exists>resp. http e zip_url = Some resp \<and> \<not> error_status (status resp) \<and>
                  chunks resp \<noteq> [] \<and> local_path zip_url \<noteq> [] \<and>
                  fs w' = (fs w)(local_path zip_url \<mapsto> File (concat (chunks resp))) \<and>
                  md5_calls (trace w') = md5_calls (trace w) @ [local_path zip_url] \<and>
                  (if md5_hexdigest (concat (chunks resp)) = md5
                   then (r = Inr (Some (local_path zip_url)) \<and> mongo_up e \<and>
                         db w' = (db w)(files_collection a \<mapsto> coll_docs w (files_collection a) @
                                   [download_record e zip_url (local_path zip_url) sz md5]))
                        \<or> ((\<exists>err. r = Inl err) \<and> db w' = db w)
                   else r = Inr None \<and> db w' = db w \<and>
                        stdout_lines (trace w') \<noteq> [] \<and>
                        last (stdout_lines (trace w')) =
                          mismatch_warning md5 (md5_hexdigest (concat (chunks resp)))
                            (local_path zip_url) @ [LF])))"
proof -
  define w3 where "w3 = py_print (''md5:'' @ md5) (py_print (''size:'' @ show_int sz)
                          (py_print (''Downloading:'' @ quoted zip_url) w))"
  have w3: "fs w3 = fs w" "db w3 = db w" "http_gets (trace w3) = http_gets (trace w)"
    "md5_calls (trace w3) = md5_calls (trace w)" "unzips (trace w3) = unzips (trace w)"
    by (simp_all add: w3_def)
  obtain rd w4 where d: "download_file e zip_url w3 = (rd, w4)"
    by (cases "download_file e zip_url w3")
  have w4: "db w4 = db w" "http_gets (trace w4) = http_gets (trace w) @ [zip_url]"
    "md5_calls (trace w4) = md5_calls (trace w)" "unzips (trace w4) = unzips (trace w)"
    using download_file_db [OF d] download_file_trace [OF d] w3 by simp_all
  show ?thesis
  proof (cases rd)
    case (Inl err)
    with fv fresh d have "r = Inl err" "w' = w4"
      by (simp_all add: fetch_and_verify_def Let_def w3_def)
    with w4 show ?thesis by simp
  next
    case (Inr f)
    from download_file_Inr [OF d [unfolded Inr]] obtain resp
      where f: "f = local_path zip_url" and resp: "http e zip_url = Some resp"
        "\<not> error_status (status resp)" "chunks resp \<noteq> []" "local_path zip_url \<noteq> []"
        and fs4: "fs w4 = (fs w)(local_path zip_url \<mapsto> File (concat (chunks resp)))"
      using w3 by auto
    define w5 where "w5 = py_print (''created: '' @ quoted f) w4"
    define w6 where "w6 = emit (Md5Of f) w5"
    have "fs w5 f = Some (File (concat (chunks resp)))"
      by (simp add: w5_def fs4 f)
    with resp(4) f have c: "compute_md5 f w5 = (Inr (md5_hexdigest (concat (chunks resp))), w6)"
      unfolding w6_def by (intro compute_md5_ok) simp_all
    have w6: "fs w6 = (fs w)(local_path zip_url \<mapsto> File (concat (chunks resp)))"
      "db w6 = db w" "http_gets (trace w6) = http_gets (trace w) @ [zip_url]"
      "md5_calls (trace w6) = md5_calls (trace w) @ [local_path zip_url]"
      "unzips (trace w6) = unzips (trace w)"
      by (simp_all add: w6_def w5_def fs4 w4 f)
    show ?thesis
    proof (cases "md5_hexdigest (concat (chunks resp)) = md5")
      case True
      obtain ri w7 where i: "insert_one e (files_collection a)
          (download_record e zip_url f sz md5) w6 = (ri, w7)"
        by (cases "insert_one e (files_collection a) (download_record e zip_url f sz md5) w6")
      from fv fresh d Inr c True i
      have r: "(case ri of Inl err \<Rightarrow> (Inl err, w7) | Inr u \<Rightarrow> (Inr (Some f), w7)) = (r, w')"
        by (simp add: fetch_and_verify_def Let_def w3_def w5_def split: sum.splits)
      show ?thesis
      proof (cases ri)
        case (Inl err)
        with r have "r = Inl err" "w' = w7" by simp_all
        moreover from insert_one_Inl [OF i [unfolded Inl]] have "w7 = w6" .
        ultimately show ?thesis using w6 resp True by auto
      next
        case (Inr u)
        with r have "r = Inr (Some f)" "w' = w7" by simp_all
        moreover from insert_one_Inr [OF i [unfolded Inr]]
        have "w7 = w6\<lparr>db := (db w6)(files_collection a \<mapsto> coll_docs w6 (files_collection a) @
                  [download_record e zip_url f sz md5])\<rparr>" "mongo_up e" by simp_all
        moreover have "coll_docs w6 (files_collection a) = coll_docs w (files_collection a)"
          by (rule coll_docs_cong) (rule w6)
        ultimately show ?thesis using w6 resp True f by auto
      qed
    next
      case False
      with fv fresh d Inr c
      have "r = Inr None"
        "w' = py_print (mismatch_warning md5 (md5_hexdigest (concat (chunks resp))) f) w6"
        by (simp_all add: fetch_and_verify_def Let_def w3_def w5_def)
      then show ?thesis using w6 resp False f by auto
    qed
  qed
qed

lemma insert_one_ok:
  "mongo_up e \<Longrightarrow> list_all int64_ok (map snd d) \<Longrightarrow>
   insert_one e c d w = (Inr (), w\<lparr>db := (db w)(c \<mapsto> coll_docs w c @ [d])\<rparr>)"
  by (simp add: insert_one_def)

lemma download_record_int64:
  "list_all int64_ok (map snd (download_record e zip_url f sz md5)) \<longleftrightarrow> int64_ok (BInt sz)"
  by (simp add: download_record_def)

text \<open>What the fresh branch does when the download itself goes through.\<close>

lemma fetch_and_verify_download:
  assumes fresh: "\<not> (os_path_exists w (local_path zip_url) \<and> \<not> overwrite a)"
    and resp: "http e zip_url = Some resp" "\<not> error_status (status resp)" "chunks resp \<noteq> []"
    and path: "local_path zip_url \<noteq> []" "fs w (local_path zip_url) \<noteq> Some Dir"
  shows "\<exists>w6. fs w6 = (fs w)(local_path zip_url \<mapsto> File (concat (chunks resp))) \<and>
              db w6 = db w \<and>
              http_gets (trace w6) = http_gets (trace w) @ [zip_url] \<and>
              md5_calls (trace w6) = md5_calls (trace w) @ [local_path zip_url] \<and>
              unzips (trace w6) = unzips (trace w) \<and>
              fetch_and_verify e a sz md5 zip_url w =
                (if md5_hexdigest (concat (chunks resp)) = md5 then
                   (case insert_one e (files_collection a)
                           (download_record e zip_url (local_path zip_url) sz md5) w6 of
                      (Inl err, w7) \<Rightarrow> (Inl err, w7)
                    | (Inr u, w7) \<Rightarrow> (Inr (Some (local_path zip_url)), w7))
                 else (Inr None,
                       py_print (mismatch_warning md5 (md5_hexdigest (concat (chunks resp)))
                                   (local_path zip_url)) w6))"
proof -
  define w3 where "w3 = py_print (''md5:'' @ md5) (py_print (''size:'' @ show_int sz)
                          (py_print (''Downloading:'' @ quoted zip_url) w))"
  have w3: "fs w3 = fs w" "db w3 = db w" "http_gets (trace w3) = http_gets (trace w)"
    "md5_calls (trace w3) = md5_calls (trace w)" "unzips (trace w3) = unzips (trace w)"
    by (simp_all add: w3_def)
  from path w3 have "fs w3 (local_path zip_url) \<noteq> Some Dir" by simp
  from download_file_ok [OF resp path(1) this] obtain w4
    where d: "download_file e zip_url w3 = (Inr (local_path zip_url), w4)"
      and fs4: "fs w4 = (fs w)(local_path zip_url \<mapsto> File (concat (chunks resp)))"
    using w3 by auto
  have w4: "db w4 = db w" "http_gets (trace w4) = http_gets (trace w) @ [zip_url]"
    "md5_calls (trace w4) = md5_calls (trace w)" "unzips (trace w4) = unzips (trace w)"
    using download_file_db [OF d] download_file_trace [OF d] w3 by simp_all
  define w5 where "w5 = py_print (''created: '' @ quoted (local_path zip_url)) w4"
  define w6 where "w6 = emit (Md5Of (local_path zip_url)) w5"
  have "fs w5 (local_path zip_url) = Some (File (concat (chunks resp)))"
    by (simp add: w5_def fs4)
  with path(1) have c: "compute_md5 (local_path zip_url) w5 =
                  (Inr (md5_hexdigest (concat (chunks resp))), w6)"
    unfolding w6_def by (intro compute_md5_ok)
  have w6: "fs w6 = (fs w)(local_path zip_url \<mapsto> File (concat (chunks resp)))"
    "db w6 = db w" "http_gets (trace w6) = http_gets (trace w) @ [zip_url]"
    "md5_calls (trace w6) = md5_calls (trace w) @ [local_path zip_url]"
    "unzips (trace w6) = unzips (trace w)"
    by (simp_all add: w6_def w5_def fs4 w4)
  have "fetch_and_verify e a sz md5 zip_url w =
          (if md5_hexdigest (concat (chunks resp)) = md5 then
             (case insert_one e (files_collection a)
                     (download_record e zip_url (local_path zip_url) sz md5) w6 of
                (Inl err, w7) \<Rightarrow> (Inl err, w7)
              | (Inr u, w7) \<Rightarrow> (Inr (Some (local_path zip_url)), w7))
           else (Inr None,
                 py_print (mismatch_warning md5 (md5_hexdigest (concat (chunks resp)))
                             (local_path zip_url)) w6))"
    using d [unfolded w3_def] c [unfolded w5_def]
    by (simp add: fetch_and_verify_def Let_def fresh)
  with w6 show ?thesis by blast
qed

lemma fetch_and_verify_accepts:
  assumes fresh: "\<not> (os_path_exists w (local_path zip_url) \<and> \<not> overwrite a)"
    and resp: "http e zip_url = Some resp" "\<not> error_status (status resp)" "chunks resp \<noteq> []"
    and path: "local_path zip_url \<noteq> []" "fs w (local_path zip_url) \<noteq> Some Dir"
    and mongo: "mongo_up e" "int64_ok (BInt sz)"
    and same: "md5_hexdigest (concat (chunks resp)) = md5"
  shows "\<exists>w'. fetch_and_verify e a sz md5 zip_url w = (Inr (Some (local_path zip_url)), w') \<and>
              fs w' = (fs w)(local_path zip_url \<mapsto> File (concat (chunks resp))) \<and>
              db w' = (db w)(files_collection a \<mapsto> coll_docs w (files_collection a) @
                        [download_record e zip_url (local_path zip_url) sz md5]) \<and>
              http_gets (trace w') = http_gets (trace w) @ [zip_url] \<and>
              md5_calls (trace w') = md5_calls (trace w) @ [local_path zip_url] \<and>
              unzips (trace w') = unzips (trace w)"
proof -
  let ?d = "download_record e zip_url (local_path zip_url) sz md5"
  from fetch_and_verify_download [OF fresh resp path, where sz = sz and ?md5.0 = md5] same
  obtain w6
    where w6: "fs w6 = (fs w)(local_path zip_url \<mapsto> File (concat (chunks resp)))" "db w6 = db w"
      "http_gets (trace w6) = http_gets (trace w) @ [zip_url]"
      "md5_calls (trace w6) = md5_calls (trace w) @ [local_path zip_url]"
      "unzips (trace w6) = unzips (trace w)"
      and fv: "fetch_and_verify e a sz md5 zip_url w =
                 (case insert_one e (files_collection a) ?d w6 of
                    (Inl err, w7) \<Rightarrow> (Inl err, w7)
                  | (Inr u, w7) \<Rightarrow> (Inr (Some (local_path zip_url)), w7))"
    by auto
  let ?w7 = "w6\<lparr>db := (db w6)(files_collection a \<mapsto> coll_docs w6 (files_collection a) @ [?d])\<rparr>"
  have cd: "coll_docs w6 (files_collection a) = coll_docs w (files_collection a)"
    by (rule coll_docs_cong) (rule w6)
  have "insert_one e (files_collection a) ?d w6 = (Inr (), ?w7)"
    using mongo by (intro insert_one_ok) (simp_all add: download_record_int64)
  with fv have "fetch_and_verify e a sz md5 zip_url w = (Inr (Some (local_path zip_url)), ?w7)"
    by simp
  then show ?thesis using w6 cd by (intro exI [of _ ?w7]) simp
qed

lemma fetch_and_verify_rejects:
  assumes fresh: "\<not> (os_path_exists w (local_path zip_url) \<and> \<not> overwrite a)"
    and resp: "http e zip_url = Some resp" "\<not> error_status (status resp)" "chunks resp \<noteq> []"
    and path: "local_path zip_url \<noteq> []" "fs w (local_path zip_url) \<noteq> Some Dir"
    and differ: "md5_hexdigest (concat (chunks resp)) \<noteq> md5"
  shows "\<exists>w'. fetch_and_verify e a sz md5 zip_url w = (Inr None, w') \<and>
              fs w' = (fs w)(local_path zip_url \<mapsto> File (concat (chunks resp))) \<and>
              db w' = db w \<and>
              http_gets (trace w') = http_gets (trace w) @ [zip_url] \<and>
              md5_calls (trace w') = md5_calls (trace w) @ [local_path zip_url] \<and>
              unzips (trace w') = unzips (trace w) \<and>
              stdout_lines (trace w') \<noteq> [] \<and>
              last (stdout_lines (trace w')) =
                mismatch_warning md5 (md5_hexdigest (concat (chunks resp))) (local_path zip_url)
                  @ [LF]"
proof -
  from fetch_and_verify_download [OF fresh resp path, where sz = sz and ?md5.0 = md5] differ
  obtain w6
    where w6: "fs w6 = (fs w)(local_path zip_url \<mapsto> File (concat (chunks resp)))" "db w6 = db w"
      "http_gets (trace w6) = http_gets (trace w) @ [zip_url]"
      "md5_calls (trace w6) = md5_calls (trace w) @ [local_path zip_url]"
      "unzips (trace w6) = unzips (trace w)"
      and fv: "fetch_and_verify e a sz md5 zip_url w =
                 (Inr None,
                  py_print (mismatch_warning md5 (md5_hexdigest (concat (chunks resp)))
                              (local_path zip_url)) w6)"
    by auto
  let ?w7 = "py_print (mismatch_warning md5 (md5_hexdigest (concat (chunks resp)))
               (local_path zip_url)) w6"
  from fv w6 show ?thesis by (intro exI [of _ ?w7]) simp
qed

lemma extract_zip_file_bad:
  "f \<noteq> [] \<Longrightarrow> fs w f = Some (File c) \<Longrightarrow> unzip e c = None \<Longrightarrow>
   extract_zip_file e f w = (Inl BadZipFile, emit (Unzip f) w)"
  by (simp add: extract_zip_file_def Let_def read_file_def)

lemma unzip_and_list_bad:
  "f \<noteq> [] \<Longrightarrow> fs w f = Some (File c) \<Longrightarrow> unzip e c = None \<Longrightarrow>
   unzip_and_list e l f w =
     (Inl BadZipFile, emit (Unzip f) (py_print (''Unzipping: '' @ quoted f) w))"
  using extract_zip_file_bad [of f "py_print (''Unzipping: '' @ quoted f) w" c e]
  by (simp add: unzip_and_list_def Let_def)

lemma extract_zip_file_no_entries:
  "f \<noteq> [] \<Longrightarrow> fs w f = Some (File c) \<Longrightarrow> unzip e c = Some [] \<Longrightarrow>
   extract_zip_file e f w = (Inr [], emit (Unzip f) w)"
  by (simp add: extract_zip_file_def Let_def read_file_def)

lemma unzip_and_list_no_entries:
  "f \<noteq> [] \<Longrightarrow> fs w f = Some (File c) \<Longrightarrow> unzip e c = Some [] \<Longrightarrow>
   unzip_and_list e l f w =
     (Inr (), emit (Unzip f) (py_print (''Unzipping: '' @ quoted f) w))"
  using extract_zip_file_no_entries [of f "py_print (''Unzipping: '' @ quoted f) w" c e]
  by (simp add: unzip_and_list_def Let_def)

lemma mismatch_warning_names_both:
  "\<exists>pre mid post. mismatch_warning md5 computed f = pre @ md5 @ mid @ computed @ post"
  unfolding mismatch_warning_def quoted_def
  by (metis append_assoc)

lemma fetch_and_verify_unzips:
  "fetch_and_verify e a sz md5 zip_url w = (r, w') \<Longrightarrow> unzips (trace w') = unzips (trace w)"
  using fetch_and_verify_fresh [of w zip_url a e sz md5 r w']
    fetch_and_verify_reuse [of w zip_url a e sz md5]
  by (cases "os_path_exists w (local_path zip_url) \<and> \<not> overwrite a") auto

lemma fetch_and_verify_leaves_file:
  assumes "fetch_and_verify e a sz md5 zip_url w = (Inr x, w1)"
  shows "os_path_exists w1 (local_path zip_url)"
proof (cases "os_path_exists w (local_path zip_url) \<and> \<not> overwrite a")
  case True
  with assms fetch_and_verify_reuse [of w zip_url a e sz md5]
  have "fs w1 = fs w" by auto
  with True show ?thesis by (simp add: os_path_exists_def)
next
  case False
  from fetch_and_verify_fresh [OF False assms]
  have "local_path zip_url \<noteq> [] \<and> fs w1 (local_path zip_url) \<noteq> None" by auto
  then show ?thesis by (simp add: os_path_exists_def)
qed

lemma process_line_reuse:
  assumes parse: "split_ws l = [size_field, md5, zip_url]" "py_int size_field = Some sz"
    and reuse: "os_path_exists w (local_path zip_url)" "\<not> overwrite a"
  shows "process_line e a l w =
           unzip_and_list e l (local_path zip_url)
             (py_print (''File '' @ quoted (local_path zip_url) @ ''exists locally'') w)"
  using parse fetch_and_verify_reuse [OF reuse, of e sz md5]
  by (simp add: process_line_def)

text \<open>The \<^verbatim>\<open>files\<close> collection only grows, and only by records of verified downloads.\<close>

lemma process_line_db:
  assumes run: "process_line e a l w = (r, w')"
  shows "db w' = db w \<or>
         (\<exists>size_field md5 zip_url sz resp.
            split_ws l = [size_field, md5, zip_url] \<and> py_int size_field = Some sz \<and>
            http e zip_url = Some resp \<and> md5_hexdigest (concat (chunks resp)) = md5 \<and>
            db w' = (db w)(files_collection a \<mapsto> coll_docs w (files_collection a) @
                      [download_record e zip_url (local_path zip_url) sz md5]))"
proof (cases "\<exists>size_field md5 zip_url sz.
                split_ws l = [size_field, md5, zip_url] \<and> py_int size_field = Some sz")
  case False
  with run have "w' = w"
    by (auto simp: process_line_def split: list.splits option.splits)
  then show ?thesis by simp
next
  case True
  then obtain size_field md5 zip_url sz
    where parse: "split_ws l = [size_field, md5, zip_url]" "py_int size_field = Some sz"
    by blast
  obtain r1 w1 where fv: "fetch_and_verify e a sz md5 zip_url w = (r1, w1)"
    by (cases "fetch_and_verify e a sz md5 zip_url w")
  have later: "db w' = db w1"
  proof (cases r1)
    case (Inl err)
    with run parse fv show ?thesis by (simp add: process_line_def)
  next
    case (Inr x)
    show ?thesis
    proof (cases x)
      case None
      with run parse fv Inr show ?thesis by (simp add: process_line_def)
    next
      case (Some f)
      with run parse fv Inr have "unzip_and_list e l f w1 = (r, w')"
        by (simp add: process_line_def)
      from unzip_and_list_frame [OF this] show ?thesis by simp
    qed
  qed
  show ?thesis
  proof (cases "os_path_exists w (local_path zip_url) \<and> \<not> overwrite a")
    case True
    with fv fetch_and_verify_reuse [of w zip_url a e sz md5] have "db w1 = db w" by auto
    with later show ?thesis by simp
  next
    case False
    from fetch_and_verify_fresh [OF False fv]
    have "db w1 = db w \<or>
          (\<exists>resp. http e zip_url = Some resp \<and> md5_hexdigest (concat (chunks resp)) = md5 \<and>
             db w1 = (db w)(files_collection a \<mapsto> coll_docs w (files_collection a) @
                       [download_record e zip_url (local_path zip_url) sz md5]))"
      by (auto split: if_splits)
    with later parse show ?thesis by auto
  qed
qed

lemma download_loop_files:
  assumes "download_loop e a ls w = (r, w')"
  shows "\<exists>new. coll_docs w' (files_collection a) = coll_docs w (files_collection a) @ new \<and>
           (\<forall>c. c \<noteq> files_collection a \<longrightarrow> db w' c = db w c) \<and>
           (\<forall>d \<in> set new. \<exists>l \<in> set ls. \<exists>size_field md5 zip_url sz resp.
              split_ws l = [size_field, md5, zip_url] \<and> py_int size_field = Some sz \<and>
              http e zip_url = Some resp \<and> md5_hexdigest (concat (chunks resp)) = md5 \<and>
              d = download_record e zip_url (local_path zip_url) sz md5)"
  using assms
proof (induction ls arbitrary: w)
  case Nil
  then show ?case by simp
next
  case (Cons l ls)
  obtain r1 w1 where p: "process_line e a l w = (r1, w1)"
    by (cases "process_line e a l w")
  let ?P = "\<lambda>ls d. \<exists>l \<in> set ls. \<exists>size_field md5 zip_url sz resp.
              split_ws l = [size_field, md5, zip_url] \<and> py_int size_field = Some sz \<and>
              http e zip_url = Some resp \<and> md5_hexdigest (concat (chunks resp)) = md5 \<and>
              d = download_record e zip_url (local_path zip_url) sz md5"
  from process_line_db [OF p]
  obtain new1 where n1: "coll_docs w1 (files_collection a) = coll_docs w (files_collection a) @ new1"
    "\<forall>c. c \<noteq> files_collection a \<longrightarrow> db w1 c = db w c" "\<forall>d \<in> set new1. ?P [l] d"
  proof
    assume "db w1 = db w"
    then have "coll_docs w1 (files_collection a) = coll_docs w (files_collection a) @ []"
      by (simp add: coll_docs_def)
    with \<open>db w1 = db w\<close> show ?thesis using that [of "[]"] by simp
  next
    assume "\<exists>size_field md5 zip_url sz resp.
            split_ws l = [size_field, md5, zip_url] \<and> py_int size_field = Some sz \<and>
            http e zip_url = Some resp \<and> md5_hexdigest (concat (chunks resp)) = md5 \<and>
            db w1 = (db w)(files_collection a \<mapsto> coll_docs w (files_collection a) @
                      [download_record e zip_url (local_path zip_url) sz md5])"
    then obtain size_field md5 zip_url sz resp
      where h: "split_ws l = [size_field, md5, zip_url]" "py_int size_field = Some sz"
        "http e zip_url = Some resp" "md5_hexdigest (concat (chunks resp)) = md5"
        "db w1 = (db w)(files_collection a \<mapsto> coll_docs w (files_collection a) @
                      [download_record e zip_url (local_path zip_url) sz md5])"
      by blast
    let ?d = "download_record e zip_url (local_path zip_url) sz md5"
    from h(5) have "coll_docs w1 (files_collection a) = coll_docs w (files_collection a) @ [?d]"
      "\<forall>c. c \<noteq> files_collection a \<longrightarrow> db w1 c = db w c"
      by (simp_all add: coll_docs_def)
    moreover from h(1-4) have "\<forall>d \<in> set [?d]. ?P [l] d" by auto
    ultimately show ?thesis using that [of "[?d]"] by blast
  qed
  show ?case
  proof (cases r1)
    case (Inl err)
    with Cons.prems p have "w' = w1" by simp
    with n1 show ?thesis by (intro exI [of _ new1]) auto
  next
    case (Inr u)
    with Cons.prems p have "download_loop e a ls w1 = (r, w')" by simp
    from Cons.IH [OF this] obtain new2
      where n2: "coll_docs w' (files_collection a) = coll_docs w1 (files_collection a) @ new2"
        "\<forall>c. c \<noteq> files_collection a \<longrightarrow> db w' c = db w1 c" "\<forall>d \<in> set new2. ?P ls d"
      by blast
    from n1 n2 show ?thesis by (intro exI [of _ "new1 @ new2"]) auto
  qed
qed

subsection \<open>The aggregation and the manifest\<close>

lemma aggregate_geo:
  assumes "mongo_up e"
  shows "aggregate e c geo_pipeline w =
           (Inr [], w\<lparr>db := (db w)((fst c, ''events_geo'') \<mapsto> geo_docs (coll_docs w c))\<rparr>)"
proof -
  have "list_all double_cond matcher_query"
    by (simp add: matcher_query_def double_cond_def)
  then have m: "match_stage (BDoc matcher_query) ds =
      Some (filter (\<lambda>d. list_all (\<lambda>fc. has_double d (fst fc)) matcher_query) ds)" for ds
    by (simp add: match_stage_def)
  show ?thesis
    using assms by (simp add: aggregate_def geo_pipeline_def matcher_def adder_def m geo_docs_def)
qed

lemma map_geo_ok:
  assumes "mongo_up e"
  shows "map_geo e a w =
           (Exit 0, (py_print ''Mapping lat/lon to GeoJSON'' w)
                       \<lparr>db := (db w)((database a, ''events_geo'') \<mapsto>
                                 geo_docs (coll_docs w (events_collection a)))\<rparr>)"
proof -
  have "coll_docs (py_print ''Mapping lat/lon to GeoJSON'' w) (events_collection a) =
          coll_docs w (events_collection a)"
    by (rule coll_docs_cong) simp
  then show ?thesis
    using aggregate_geo [OF assms, of "events_collection a" "py_print ''Mapping lat/lon to GeoJSON'' w"]
    by (simp add: map_geo_def Let_def events_collection_def)
qed

lemma map_geo_outcome: "map_geo e a w = (Exit n, w') \<Longrightarrow> n = 0"
  by (auto simp: map_geo_def Let_def split: prod.splits sum.splits)

lemma geo_suffix: "c @ ''_geo'' = ''events_geo'' \<longleftrightarrow> c = ''events''"
proof -
  have "c @ ''_geo'' = ''events'' @ ''_geo'' \<longleftrightarrow> c = ''events''"
    by (rule append_same_eq)
  then show ?thesis by simp
qed

lemma resolve_manifest_missing:
  assumes "local a = Some p" and "p \<noteq> []" and "\<not> os_path_isfile w p"
  shows "resolve_manifest e a w = (Inl (Exit 1), py_print (quoted p @ '' does not exist'') w)"
  using assms by (simp add: resolve_manifest_def local_given_def)

lemma resolve_manifest_exit:
  assumes "resolve_manifest e a w = (Inl (Exit n), w')"
  shows "n = 1 \<and> local_given a \<and> \<not> os_path_isfile w (the (local a))"
  using assms
  by (auto simp: resolve_manifest_def split: if_splits prod.splits sum.splits)

subsection \<open>The concrete runs, evaluated\<close>

text \<open>Two test vectors of MD5: the empty string (RFC 1321) and \<^verbatim>\<open>hello\<close>.\<close>

lemma md5_empty_string: "md5_hexdigest [] = ''d41d8cd98f00b204e9800998ecf8427e''"
  by code_simp

lemma md5_hello: "md5_hexdigest ''hello'' = hello_md5"
  unfolding hello_md5_def by code_simp

lemma md5_hello_not_upper: "md5_hexdigest ''hello'' \<noteq> hello_md5_upper"
  by (simp add: md5_hello hello_md5_def hello_md5_upper_def)

lemma md5_hello_spec_equal_upper: "spec_hex_equal (md5_hexdigest ''hello'') hello_md5_upper"
  by (simp add: md5_hello spec_hex_equal_def hello_md5_def hello_md5_upper_def lower_hex_def)

lemma local_path_ex_url: "local_path ex_url = ex_zip"
  by (simp add: local_path_def ex_url_def ex_zip_def)

lemma split_ws_ex_line: "split_ws ex_line = [''5'', hello_md5, ex_url]"
  by (simp add: split_ws_def ex_line_def hello_md5_def ex_url_def is_space_def)

lemma split_ws_ex_line_upper: "split_ws ex_line_upper = [''5'', hello_md5_upper, ex_url]"
  by (simp add: split_ws_def ex_line_upper_def hello_md5_upper_def ex_url_def is_space_def)

lemma py_int_5: "py_int ''5'' = Some 5"
  by (simp add: py_int_def is_digit_def digit_val_def)

lemma ex_fresh: "\<not> (os_path_exists empty_world (local_path ex_url) \<and> \<not> overwrite default_args)"
  by (simp add: os_path_exists_def empty_world_def)

lemma ex_reuse: "os_path_exists archive_world (local_path ex_url)"
  by (simp add: os_path_exists_def archive_world_def local_path_ex_url ex_zip_def)

lemma ex_no_overwrite: "\<not> overwrite default_args"
  by (simp add: default_args_def)

lemma ex_http: "http ex_env ex_url = Some hello_response"
  by (simp add: ex_env_def)

lemma ex_status: "\<not> error_status (status hello_response)"
  by (simp add: hello_response_def error_status_def)

lemma ex_chunks: "chunks hello_response \<noteq> []"
  by (simp add: hello_response_def)

lemma ex_body: "concat (chunks hello_response) = ''hello''"
  by (simp add: hello_response_def)

lemma ex_path: "local_path ex_url \<noteq> []"
  by (simp add: local_path_ex_url ex_zip_def)

lemma ex_not_dir: "fs empty_world (local_path ex_url) \<noteq> Some Dir"
  by (simp add: empty_world_def)

lemma ex_mongo: "mongo_up ex_env"
  by (simp add: ex_env_def)

lemma ex_int64: "int64_ok (BInt 5)"
  by simp

lemma ex_not_zip: "unzip ex_env ''hello'' = None"
  by (simp add: ex_env_def empty_zip_def)

text \<open>The archive is downloaded, its checksum is the manifest's, and it is recorded.\<close>

lemma ex_fetch_match:
  "\<exists>w'. fetch_and_verify ex_env default_args 5 hello_md5 ex_url empty_world =
           (Inr (Some ex_zip), w') \<and>
         fs w' = [ex_zip \<mapsto> File ''hello''] \<and>
         db w' = [files_collection default_args \<mapsto>
                    [download_record ex_env ex_url ex_zip 5 hello_md5]] \<and>
         http_gets (trace w') = [ex_url] \<and>
         md5_calls (trace w') = [ex_zip] \<and>
         unzips (trace w') = []"
  using fetch_and_verify_accepts [OF ex_fresh ex_http ex_status ex_chunks ex_path ex_not_dir
      ex_mongo ex_int64, of hello_md5]
  by (simp add: ex_body md5_hello local_path_ex_url empty_world_def coll_docs_def)

text \<open>The same download against a manifest that spells the checksum in upper case.\<close>

lemma ex_fetch_mismatch:
  "\<exists>w'. fetch_and_verify ex_env default_args 5 hello_md5_upper ex_url empty_world =
           (Inr None, w') \<and>
         fs w' = [ex_zip \<mapsto> File ''hello''] \<and>
         db w' = Map.empty \<and>
         http_gets (trace w') = [ex_url] \<and>
         md5_calls (trace w') = [ex_zip] \<and>
         unzips (trace w') = [] \<and>
         stdout_lines (trace w') \<noteq> [] \<and>
         last (stdout_lines (trace w')) =
           mismatch_warning hello_md5_upper hello_md5 ex_zip @ [LF]"
  using fetch_and_verify_rejects [OF ex_fresh ex_http ex_status ex_chunks ex_path ex_not_dir,
      of hello_md5_upper 5]
  by (simp add: ex_body md5_hello md5_hello_not_upper [unfolded md5_hello] local_path_ex_url
      empty_world_def)

text \<open>
  The pass over the line with the right checksum: the archive is recorded, and then the
  extraction fails, since \<^verbatim>\<open>hello\<close> is no zip file.
\<close>

lemma ex_pass_bad_zip:
  "\<exists>w'. process_line ex_env default_args ex_line empty_world = (Inl BadZipFile, w') \<and>
         download_loop ex_env default_args [ex_line] empty_world = (Inl BadZipFile, w') \<and>
         unzips (trace w') = [ex_zip] \<and>
         coll_docs w' (files_collection default_args) =
           [download_record ex_env ex_url ex_zip 5 hello_md5]"
proof -
  from ex_fetch_match obtain w1
    where fv1: "fetch_and_verify ex_env default_args 5 hello_md5 ex_url empty_world =
                  (Inr (Some ex_zip), w1)"
      and fs1: "fs w1 = [ex_zip \<mapsto> File ''hello'']"
      and db1: "db w1 = [files_collection default_args \<mapsto>
                           [download_record ex_env ex_url ex_zip 5 hello_md5]]"
      and z1: "unzips (trace w1) = []"
    by blast
  let ?w' = "emit (Unzip ex_zip) (py_print (''Unzipping: '' @ quoted ex_zip) w1)"
  have "ex_zip \<noteq> []" by (simp add: ex_zip_def)
  moreover have "fs w1 ex_zip = Some (File ''hello'')" by (simp add: fs1)
  ultimately have "unzip_and_list ex_env ex_line ex_zip w1 = (Inl BadZipFile, ?w')"
    using ex_not_zip by (intro unzip_and_list_bad)
  then
  have u: "unzip_and_list ex_env ex_line ex_zip w1 = (Inl BadZipFile, ?w')" .
  have run: "process_line ex_env default_args ex_line empty_world = (Inl BadZipFile, ?w')"
    using split_ws_ex_line py_int_5 fv1 u by (simp add: process_line_def)
  then have "download_loop ex_env default_args [ex_line] empty_world = (Inl BadZipFile, ?w')"
    by simp
  moreover have "unzips (trace ?w') = [ex_zip]" by (simp add: z1)
  moreover have "coll_docs ?w' (files_collection default_args) =
                   [download_record ex_env ex_url ex_zip 5 hello_md5]"
    by (simp add: coll_docs_def db1)
  ultimately show ?thesis using run by blast
qed

text \<open>
  A whole run, \<^verbatim>\<open>--local manifest.txt --download\<close>, over the manifest of two lines: the
  first archive is downloaded and rejected, the second is downloaded, recorded and
  unpacked, and the run ends with status 0.
\<close>

lemma md5_empty_zip: "md5_hexdigest empty_zip = empty_zip_md5"
  unfolding empty_zip_def empty_zip_md5_def by code_simp

lemma local_path_empty_zip_url: "local_path empty_zip_url = empty_zip_name"
  by (simp add: local_path_def empty_zip_url_def empty_zip_name_def)

lemma manifest_lines:
  "read_text_lines ''manifest.txt'' manifest_world =
     Inr [ex_line_upper @ [LF], empty_zip_line @ [LF]]"
  by (simp add: read_text_lines_def read_file_def manifest_world_def two_line_manifest_def
      utf8_valid_def keep_lines_def ex_line_upper_def empty_zip_line_def LF_def CR_def)

lemma split_ws_manifest_line1:
  "split_ws (ex_line_upper @ [LF]) = [''5'', hello_md5_upper, ex_url]"
  by (simp add: split_ws_def ex_line_upper_def hello_md5_upper_def ex_url_def is_space_def LF_def)

lemma split_ws_manifest_line2:
  "split_ws (empty_zip_line @ [LF]) = [''22'', empty_zip_md5, empty_zip_url]"
  by (simp add: split_ws_def empty_zip_line_def empty_zip_md5_def empty_zip_url_def
      is_space_def LF_def)

lemma py_int_22: "py_int ''22'' = Some 22"
  by (simp add: py_int_def is_digit_def digit_val_def)

lemma ex_two_line_run:
  "\<exists>w'. main ex_env local_args manifest_world = (Exit 0, w') \<and>
         http_gets (trace w') = [ex_url, empty_zip_url] \<and>
         md5_calls (trace w') = [ex_zip, empty_zip_name] \<and>
         unzips (trace w') = [empty_zip_name] \<and>
         fs w' ex_zip = Some (File ''hello'') \<and>
         fs w' empty_zip_name = Some (File empty_zip) \<and>
         db w' = [files_collection local_args \<mapsto>
                    [download_record ex_env empty_zip_url empty_zip_name 22 empty_zip_md5]]"
proof -
  let ?a = local_args
  have no: "\<not> overwrite ?a" by (simp add: local_args_def default_args_def)
  \<comment> \<open>the first line\<close>
  have fresh1: "\<not> (os_path_exists manifest_world (local_path ex_url) \<and> \<not> overwrite ?a)"
    by (simp add: os_path_exists_def manifest_world_def local_path_ex_url ex_zip_def)
  have nd1: "fs manifest_world (local_path ex_url) \<noteq> Some Dir"
    by (simp add: manifest_world_def local_path_ex_url ex_zip_def)
  have d1: "md5_hexdigest (concat (chunks hello_response)) \<noteq> hello_md5_upper"
    using md5_hello_not_upper by (simp add: ex_body)
  from fetch_and_verify_rejects [OF fresh1 ex_http ex_status ex_chunks ex_path nd1 d1,
      where sz = 5]
  obtain w1 where fv1: "fetch_and_verify ex_env ?a 5 hello_md5_upper ex_url manifest_world =
                          (Inr None, w1)"
    and w1: "fs w1 = (fs manifest_world)(ex_zip \<mapsto> File ''hello'')" "db w1 = Map.empty"
      "http_gets (trace w1) = [ex_url]" "md5_calls (trace w1) = [ex_zip]"
      "unzips (trace w1) = []"
    by (auto simp: local_path_ex_url ex_body manifest_world_def)
  have p1: "process_line ex_env ?a (ex_line_upper @ [LF]) manifest_world = (Inr (), w1)"
    using split_ws_manifest_line1 py_int_5 fv1 by (simp add: process_line_def)
  \<comment> \<open>the second line\<close>
  have h2: "http ex_env empty_zip_url = Some empty_zip_response"
    by (simp add: ex_env_def ex_url_def empty_zip_url_def)
  have s2: "\<not> error_status (status empty_zip_response)" "chunks empty_zip_response \<noteq> []"
    by (simp_all add: empty_zip_response_def error_status_def)
  have b2: "concat (chunks empty_zip_response) = empty_zip"
    by (simp add: empty_zip_response_def)
  have n2: "local_path empty_zip_url \<noteq> []"
    by (simp add: local_path_empty_zip_url empty_zip_name_def)
  have none2: "fs w1 (local_path empty_zip_url) = None"
    by (simp add: w1 manifest_world_def local_path_empty_zip_url empty_zip_name_def ex_zip_def)
  then have fresh2: "\<not> (os_path_exists w1 (local_path empty_zip_url) \<and> \<not> overwrite ?a)"
    and nd2: "fs w1 (local_path empty_zip_url) \<noteq> Some Dir"
    by (simp_all add: os_path_exists_def)
  have v2: "md5_hexdigest (concat (chunks empty_zip_response)) = empty_zip_md5"
    by (simp add: b2 md5_empty_zip)
  have i2: "int64_ok (BInt 22)" by simp
  from fetch_and_verify_accepts [OF fresh2 h2 s2 n2 nd2 ex_mongo i2 v2]
  obtain w2 where fv2: "fetch_and_verify ex_env ?a 22 empty_zip_md5 empty_zip_url w1 =
                          (Inr (Some empty_zip_name), w2)"
    and w2: "fs w2 = (fs w1)(empty_zip_name \<mapsto> File empty_zip)"
      "db w2 = [files_collection ?a \<mapsto>
                  [download_record ex_env empty_zip_url empty_zip_name 22 empty_zip_md5]]"
      "http_gets (trace w2) = [ex_url, empty_zip_url]"
      "md5_calls (trace w2) = [ex_zip, empty_zip_name]"
      "unzips (trace w2) = []"
    by (auto simp: local_path_empty_zip_url b2 w1 coll_docs_def)
  let ?w3 = "emit (Unzip empty_zip_name) (py_print (''Unzipping: '' @ quoted empty_zip_name) w2)"
  have "empty_zip_name \<noteq> []" by (simp add: empty_zip_name_def)
  moreover have "fs w2 empty_zip_name = Some (File empty_zip)" by (simp add: w2)
  moreover have "unzip ex_env empty_zip = Some []" by (simp add: ex_env_def)
  ultimately have u2: "unzip_and_list ex_env (empty_zip_line @ [LF]) empty_zip_name w2 =
                         (Inr (), ?w3)"
    by (rule unzip_and_list_no_entries)
  have p2: "process_line ex_env ?a (empty_zip_line @ [LF]) w1 = (Inr (), ?w3)"
    using split_ws_manifest_line2 py_int_22 fv2 u2 by (simp add: process_line_def)
  \<comment> \<open>the loop and the script\<close>
  from p1 p2
  have "download_loop ex_env ?a [ex_line_upper @ [LF], empty_zip_line @ [LF]] manifest_world =
          (Inr (), ?w3)" by simp
  with manifest_lines
  have "download_all ex_env ?a ''manifest.txt'' manifest_world = (Inr (), ?w3)"
    by (simp add: download_all_def)
  moreover have "resolve_manifest ex_env ?a manifest_world = (Inr ''manifest.txt'', manifest_world)"
    by (simp add: resolve_manifest_def local_given_def local_args_def default_args_def
        os_path_isfile_def manifest_world_def)
  ultimately have m: "main ex_env ?a manifest_world = (Exit 0, ?w3)"
    by (simp add: main_def local_args_def default_args_def)
  have "fs ?w3 ex_zip = Some (File ''hello'')"
    by (simp add: w2 w1 ex_zip_def empty_zip_name_def)
  moreover have "fs ?w3 empty_zip_name = Some (File empty_zip)" by (simp add: w2)
  ultimately show ?thesis using m w2 by (intro exI [of _ ?w3]) simp
qed

lemma geo_docs_examples:
  "geo_docs [six_field_doc, gdelt_doc] =
     [six_field_doc @
        [(''Actor1Geo'', BDoc [(''type'', BString ''Point''),
                               (''coordinates'', BArray [BNull, BDouble 3])]),
         (''Actor2Geo'', BDoc [(''type'', BString ''Point''),
                               (''coordinates'', BArray [BNull, BNull])]),
         (''ActionGeo'', BDoc [(''type'', BString ''Point''),
                               (''coordinates'', BArray [BNull, BDouble 1])])]]"
  by (simp add: geo_docs_def six_field_doc_def gdelt_doc_def matcher_query_def adder_flds_def
      has_double_def add_fields_def)

section \<open>The claims\<close>

subsection \<open>C1\<close>

text \<open>
  C1. In a pass through the loop body a record is inserted into the \<^verbatim>\<open>files\<close> collection
  only when the checksum computed over the local archive equals the checksum of the
  manifest line: if the pass changes the database, a checksum was computed in this pass,
  the archive on disk has the digest the manifest declares, and the change is the one
  record appended. When a checksum was computed and it differs, the archive is on disk,
  the database is unchanged, and the pass ends by \<^verbatim>\<open>continue\<close>: \<open>process_line\<close> returns
  the same world, with no call of \<^verbatim>\<open>extract_zip_file\<close>. Over the whole loop, from any
  world: the \<^verbatim>\<open>files\<close> collection only grows, no other collection changes, and every
  record added is the record of a manifest line whose checksum is the digest of what the
  server sends for its URL.
\<close>

theorem record_only_on_checksum_match:
  assumes fv: "fetch_and_verify e a sz md5 zip_url w = (r, w')"
    and parse: "split_ws l = [size_field, md5, zip_url]" "py_int size_field = Some sz"
  shows "(db w' \<noteq> db w \<longrightarrow>
            md5_calls (trace w') = md5_calls (trace w) @ [local_path zip_url] \<and>
            (\<exists>c. fs w' (local_path zip_url) = Some (File c) \<and> md5_hexdigest c = md5) \<and>
            db w' = (db w)(files_collection a \<mapsto> coll_docs w (files_collection a) @
                      [download_record e zip_url (local_path zip_url) sz md5])) \<and>
         (md5_calls (trace w') \<noteq> md5_calls (trace w) \<longrightarrow>
            (\<exists>c. fs w' (local_path zip_url) = Some (File c) \<and>
                 (md5_hexdigest c \<noteq> md5 \<longrightarrow> db w' = db w \<and> r = Inr None))) \<and>
         (r = Inr None \<longrightarrow>
            process_line e a l w = (Inr (), w') \<and> unzips (trace w') = unzips (trace w)) \<and>
         (\<forall>ls v r' v'. download_loop e a ls v = (r', v') \<longrightarrow>
            (\<exists>new. coll_docs v' (files_collection a) = coll_docs v (files_collection a) @ new \<and>
               (\<forall>c. c \<noteq> files_collection a \<longrightarrow> db v' c = db v c) \<and>
               (\<forall>d \<in> set new. \<exists>k \<in> set ls. \<exists>f m u n resp.
                  split_ws k = [f, m, u] \<and> py_int f = Some n \<and>
                  http e u = Some resp \<and> md5_hexdigest (concat (chunks resp)) = m \<and>
                  d = download_record e u (local_path u) n m)))"
proof -
  have pass: "(db w' \<noteq> db w \<longrightarrow>
            md5_calls (trace w') = md5_calls (trace w) @ [local_path zip_url] \<and>
            (\<exists>c. fs w' (local_path zip_url) = Some (File c) \<and> md5_hexdigest c = md5) \<and>
            db w' = (db w)(files_collection a \<mapsto> coll_docs w (files_collection a) @
                      [download_record e zip_url (local_path zip_url) sz md5])) \<and>
         (md5_calls (trace w') \<noteq> md5_calls (trace w) \<longrightarrow>
            (\<exists>c. fs w' (local_path zip_url) = Some (File c) \<and>
                 (md5_hexdigest c \<noteq> md5 \<longrightarrow> db w' = db w \<and> r = Inr None))) \<and>
         (r = Inr None \<longrightarrow>
            process_line e a l w = (Inr (), w') \<and> unzips (trace w') = unzips (trace w))"
  proof (cases "os_path_exists w (local_path zip_url) \<and> \<not> overwrite a")
    case True
    with fv fetch_and_verify_reuse [of w zip_url a e sz md5]
    have "r = Inr (Some (local_path zip_url))"
      "w' = py_print (''File '' @ quoted (local_path zip_url) @ ''exists locally'') w"
      by simp_all
    then show ?thesis by simp
  next
    case False
    have skip: "r = Inr None \<longrightarrow> process_line e a l w = (Inr (), w')"
      using fv parse by (simp add: process_line_def)
    from fetch_and_verify_fresh [OF False fv] skip show ?thesis
      by (auto split: if_splits)
  qed
  have loop: "\<exists>new. coll_docs v' (files_collection a) = coll_docs v (files_collection a) @ new \<and>
               (\<forall>c. c \<noteq> files_collection a \<longrightarrow> db v' c = db v c) \<and>
               (\<forall>d \<in> set new. \<exists>k \<in> set ls. \<exists>f m u n resp.
                  split_ws k = [f, m, u] \<and> py_int f = Some n \<and>
                  http e u = Some resp \<and> md5_hexdigest (concat (chunks resp)) = m \<and>
                  d = download_record e u (local_path u) n m)"
    if "download_loop e a ls v = (r', v')" for ls v r' v'
    using download_loop_files [OF that] .
  from pass loop show ?thesis by blast
qed

text \<open>
  Witness: the download of \<^verbatim>\<open>hello\<close> against its own checksum (a record is inserted),
  and against the checksum in upper case (nothing is inserted, the pass is skipped).
\<close>

theorem record_only_on_checksum_match_witness:
  "(\<exists>w'. fetch_and_verify ex_env default_args 5 hello_md5 ex_url empty_world =
            (Inr (Some ex_zip), w') \<and>
          db w' \<noteq> db empty_world \<and>
          md5_calls (trace w') = [ex_zip] \<and>
          fs w' ex_zip = Some (File ''hello'') \<and> md5_hexdigest ''hello'' = hello_md5 \<and>
          db w' = [files_collection default_args \<mapsto>
                     [download_record ex_env ex_url ex_zip 5 hello_md5]]) \<and>
   (\<exists>w'. fetch_and_verify ex_env default_args 5 hello_md5_upper ex_url empty_world =
            (Inr None, w') \<and>
          md5_calls (trace w') \<noteq> md5_calls (trace empty_world) \<and>
          fs w' ex_zip = Some (File ''hello'') \<and> md5_hexdigest ''hello'' \<noteq> hello_md5_upper \<and>
          db w' = db empty_world \<and>
          process_line ex_env default_args ex_line_upper empty_world = (Inr (), w') \<and>
          unzips (trace w') = []) \<and>
   (\<exists>w'. download_loop ex_env default_args [ex_line] empty_world = (Inl BadZipFile, w') \<and>
          coll_docs w' (files_collection default_args) =
            [download_record ex_env ex_url ex_zip 5 hello_md5] \<and>
          split_ws ex_line = [''5'', hello_md5, ex_url] \<and> py_int ''5'' = Some 5 \<and>
          http ex_env ex_url = Some hello_response \<and>
          md5_hexdigest (concat (chunks hello_response)) = hello_md5)"
proof -
  from ex_fetch_match obtain w1
    where fv1: "fetch_and_verify ex_env default_args 5 hello_md5 ex_url empty_world =
                  (Inr (Some ex_zip), w1)"
      and fs1: "fs w1 = [ex_zip \<mapsto> File ''hello'']"
      and db1: "db w1 = [files_collection default_args \<mapsto>
                           [download_record ex_env ex_url ex_zip 5 hello_md5]]"
    by blast
  have "db w1 (files_collection default_args) \<noteq> db empty_world (files_collection default_args)"
    by (simp add: db1 empty_world_def)
  then have ne: "db w1 \<noteq> db empty_world" by auto
  from record_only_on_checksum_match [OF fv1 split_ws_ex_line py_int_5] ne
  have "md5_calls (trace w1) = md5_calls (trace empty_world) @ [local_path ex_url]"
    by blast
  then have m1: "md5_calls (trace w1) = [ex_zip]"
    by (simp add: local_path_ex_url empty_world_def)
  from ex_fetch_mismatch obtain w2
    where fv2: "fetch_and_verify ex_env default_args 5 hello_md5_upper ex_url empty_world =
                  (Inr None, w2)"
      and fs2: "fs w2 = [ex_zip \<mapsto> File ''hello'']"
      and db2: "db w2 = Map.empty"
      and m2: "md5_calls (trace w2) = [ex_zip]"
    by blast
  from record_only_on_checksum_match [OF fv2 split_ws_ex_line_upper py_int_5]
  have p2: "process_line ex_env default_args ex_line_upper empty_world = (Inr (), w2)"
    and u2: "unzips (trace w2) = unzips (trace empty_world)"
    by blast+
  have one: "\<exists>w'. fetch_and_verify ex_env default_args 5 hello_md5 ex_url empty_world =
            (Inr (Some ex_zip), w') \<and>
          db w' \<noteq> db empty_world \<and>
          md5_calls (trace w') = [ex_zip] \<and>
          fs w' ex_zip = Some (File ''hello'') \<and> md5_hexdigest ''hello'' = hello_md5 \<and>
          db w' = [files_collection default_args \<mapsto>
                     [download_record ex_env ex_url ex_zip 5 hello_md5]]"
    using fv1 ne m1 fs1 db1 md5_hello by (intro exI [of _ w1]) simp
  have two: "\<exists>w'. fetch_and_verify ex_env default_args 5 hello_md5_upper ex_url empty_world =
            (Inr None, w') \<and>
          md5_calls (trace w') \<noteq> md5_calls (trace empty_world) \<and>
          fs w' ex_zip = Some (File ''hello'') \<and> md5_hexdigest ''hello'' \<noteq> hello_md5_upper \<and>
          db w' = db empty_world \<and>
          process_line ex_env default_args ex_line_upper empty_world = (Inr (), w') \<and>
          unzips (trace w') = []"
    using fv2 m2 fs2 db2 p2 u2 md5_hello_not_upper
    by (intro exI [of _ w2]) (simp add: empty_world_def)
  from ex_pass_bad_zip obtain w3
    where l3: "download_loop ex_env default_args [ex_line] empty_world = (Inl BadZipFile, w3)"
      and c3: "coll_docs w3 (files_collection default_args) =
                 [download_record ex_env ex_url ex_zip 5 hello_md5]"
    by blast
  from record_only_on_checksum_match [OF fv1 split_ws_ex_line py_int_5] l3
  obtain new where "coll_docs w3 (files_collection default_args) =
      coll_docs empty_world (files_collection default_args) @ new"
    by blast
  with c3 have "new = [download_record ex_env ex_url ex_zip 5 hello_md5]"
    by (simp add: coll_docs_def empty_world_def)
  have three: "\<exists>w'. download_loop ex_env default_args [ex_line] empty_world = (Inl BadZipFile, w') \<and>
          coll_docs w' (files_collection default_args) =
            [download_record ex_env ex_url ex_zip 5 hello_md5] \<and>
          split_ws ex_line = [''5'', hello_md5, ex_url] \<and> py_int ''5'' = Some 5 \<and>
          http ex_env ex_url = Some hello_response \<and>
          md5_hexdigest (concat (chunks hello_response)) = hello_md5"
    using l3 c3 split_ws_ex_line py_int_5 ex_http md5_hello
    by (intro exI [of _ w3]) (simp add: ex_body)
  from one two three show ?thesis by blast
qed

subsection \<open>C2\<close>

text \<open>
  C2, as the specification states it, is false: the program compares the digest with
  the manifest's checksum by \<^verbatim>\<open>==\<close> on strings. The file \<^verbatim>\<open>hello\<close> has the digest
  \<^verbatim>\<open>5d41402abc4b2a76b9719d911017c592\<close>; against the expected checksum
  \<^verbatim>\<open>5D41402ABC4B2A76B9719D911017C592\<close>, equal to it as hexadecimal without regard to case, the
  archive is rejected: the pass ends by \<^verbatim>\<open>continue\<close> and nothing is inserted.
\<close>

theorem uppercase_checksum_is_rejected:
  "spec_hex_equal (md5_hexdigest ''hello'') hello_md5_upper \<and>
   fst (fetch_and_verify ex_env default_args 5 hello_md5_upper ex_url empty_world) = Inr None \<and>
   fs (snd (fetch_and_verify ex_env default_args 5 hello_md5_upper ex_url empty_world)) ex_zip =
     Some (File ''hello'') \<and>
   db (snd (fetch_and_verify ex_env default_args 5 hello_md5_upper ex_url empty_world)) =
     db empty_world"
proof -
  from ex_fetch_mismatch obtain w2
    where "fetch_and_verify ex_env default_args 5 hello_md5_upper ex_url empty_world =
             (Inr None, w2)"
      and "fs w2 = [ex_zip \<mapsto> File ''hello'']" and "db w2 = Map.empty"
    by blast
  with md5_hello_spec_equal_upper show ?thesis by (simp add: empty_world_def)
qed

text \<open>
  C2, amended. For a freshly downloaded archive (the download goes through, MongoDB is
  reachable, the size fits 64 bits), the archive is accepted and recorded when the digest
  and the expected checksum are the same string, character for character, and it is
  rejected, with nothing inserted, when they differ in any character, the case of a
  letter included.
\<close>

theorem verifier_accepts_exact_match_only:
  assumes fresh: "\<not> (os_path_exists w (local_path zip_url) \<and> \<not> overwrite a)"
    and resp: "http e zip_url = Some resp" "\<not> error_status (status resp)" "chunks resp \<noteq> []"
    and path: "local_path zip_url \<noteq> []" "fs w (local_path zip_url) \<noteq> Some Dir"
    and mongo: "mongo_up e" "int64_ok (BInt sz)"
  shows "\<exists>w'. fs w' = (fs w)(local_path zip_url \<mapsto> File (concat (chunks resp))) \<and>
              (if md5_hexdigest (concat (chunks resp)) = md5
               then fetch_and_verify e a sz md5 zip_url w = (Inr (Some (local_path zip_url)), w') \<and>
                    db w' = (db w)(files_collection a \<mapsto> coll_docs w (files_collection a) @
                              [download_record e zip_url (local_path zip_url) sz md5])
               else fetch_and_verify e a sz md5 zip_url w = (Inr None, w') \<and> db w' = db w)"
proof (cases "md5_hexdigest (concat (chunks resp)) = md5")
  case True
  from fetch_and_verify_accepts [OF fresh resp path mongo True]
  obtain w' where "fetch_and_verify e a sz md5 zip_url w = (Inr (Some (local_path zip_url)), w')"
    "fs w' = (fs w)(local_path zip_url \<mapsto> File (concat (chunks resp)))"
    "db w' = (db w)(files_collection a \<mapsto> coll_docs w (files_collection a) @
                        [download_record e zip_url (local_path zip_url) sz md5])"
    by blast
  with True show ?thesis by (intro exI [of _ w']) simp
next
  case False
  from fetch_and_verify_rejects [OF fresh resp path False, where sz = sz]
  obtain w' where "fetch_and_verify e a sz md5 zip_url w = (Inr None, w')"
    "fs w' = (fs w)(local_path zip_url \<mapsto> File (concat (chunks resp)))" "db w' = db w"
    by blast
  with False show ?thesis by (intro exI [of _ w']) simp
qed

text \<open>Witness: \<^verbatim>\<open>hello\<close> against its checksum, and against the same in upper case.\<close>

theorem verifier_accepts_exact_match_only_witness:
  "(\<exists>w'. fs w' = [ex_zip \<mapsto> File ''hello''] \<and>
          fetch_and_verify ex_env default_args 5 hello_md5 ex_url empty_world =
            (Inr (Some ex_zip), w') \<and>
          db w' = [files_collection default_args \<mapsto>
                     [download_record ex_env ex_url ex_zip 5 hello_md5]]) \<and>
   (\<exists>w'. fs w' = [ex_zip \<mapsto> File ''hello''] \<and>
          fetch_and_verify ex_env default_args 5 hello_md5_upper ex_url empty_world =
            (Inr None, w') \<and>
          db w' = Map.empty)"
  using verifier_accepts_exact_match_only [OF ex_fresh ex_http ex_status ex_chunks ex_path
      ex_not_dir ex_mongo ex_int64, of hello_md5]
    verifier_accepts_exact_match_only [OF ex_fresh ex_http ex_status ex_chunks ex_path
      ex_not_dir ex_mongo ex_int64, of hello_md5_upper]
  by (simp add: ex_body md5_hello md5_hello_not_upper [unfolded md5_hello] local_path_ex_url
      empty_world_def coll_docs_def)

subsection \<open>C3\<close>

text \<open>
  C3 holds for an archive and fails for a manifest. \<open>download_file\<close> calls
  \<^verbatim>\<open>raise_for_status\<close> before it opens the local file (lemma
  \<open>download_file_error_status\<close>: the world after the exception differs from the world
  before only by the request in the trace). The fetch of the manifest does not look at
  the status. Here the server answers the request for the incremental list with 404 and
  the body \<^verbatim>\<open>Not Found\<close>: the run writes the body to the manifest file and ends with
  status 0.
\<close>

theorem manifest_fetch_ignores_status:
  "http ex_env (incremental default_args) = Some not_found_response \<and>
   error_status (status not_found_response) \<and>
   main ex_env default_args empty_world =
     (Exit 0,
      \<lparr>fs = [''gdelt_incremental-file-01-02-2024-03-04-05.txt'' \<mapsto> File ''Not Found''],
       db = Map.empty,
       trace = [Stdout (''Getting master file from '' @ quoted (incremental default_args) @ [LF]),
                HttpGet (incremental default_args),
                Stdout (''Creating local master file: '' @
                        quoted ''gdelt_incremental-file-01-02-2024-03-04-05.txt'' @ [LF])]\<rparr>)"
  by (simp add: main_def resolve_manifest_def local_given_def fetch_manifest_def Let_def
      strftime_def pad2_def show_nat.simps digit_char_def ziplist_str_def
      open_w_def append_file_def utf8_valid_def emit_def py_print_def error_status_def
      default_args_def ex_env_def ex_time_def empty_world_def ex_url_def empty_zip_url_def
      not_found_response_def)

subsection \<open>C4\<close>

text \<open>
  C4 fails on the code: the query of \<open>matcher\<close> and the expressions of \<open>adder\<close> name
  different fields (\<^verbatim>\<open>_Lon\<close> against \<^verbatim>\<open>_Long\<close>, \<^verbatim>\<open>Actor2Geo_lat\<close> against
  \<^verbatim>\<open>Actor2Geo_Lat\<close>). Of the two documents of \<open>geo_world\<close>, the one with the six fields
  of the query passes the filter and gets points whose longitudes are all \<^verbatim>\<open>null\<close>, and
  whose latitude for the second actor is \<^verbatim>\<open>null\<close>; the one with the six fields the
  points are built from does not pass the filter.
\<close>

theorem geo_points_miss_the_filtered_fields:
  "main ex_env mapgeo_args geo_world =
     (Exit 0,
      \<lparr>fs = Map.empty,
       db = [(''GDELT'', ''events'') \<mapsto> [six_field_doc, gdelt_doc],
             (''GDELT'', ''events_geo'') \<mapsto>
               [six_field_doc @
                  [(''Actor1Geo'', BDoc [(''type'', BString ''Point''),
                                         (''coordinates'', BArray [BNull, BDouble 3])]),
                   (''Actor2Geo'', BDoc [(''type'', BString ''Point''),
                                         (''coordinates'', BArray [BNull, BNull])]),
                   (''ActionGeo'', BDoc [(''type'', BString ''Point''),
                                         (''coordinates'', BArray [BNull, BDouble 1])])]]],
       trace = [Stdout (''Mapping lat/lon to GeoJSON'' @ [LF])]\<rparr>)"
  using map_geo_ok [OF ex_mongo, of mapgeo_args geo_world]
  by (simp add: main_def mapgeo_args_def default_args_def geo_world_def events_collection_def
      coll_docs_def geo_docs_examples py_print_def emit_def)

subsection \<open>C5\<close>

text \<open>
  C5, as the specification states it, is false: the name of the output collection is the
  literal \<^verbatim>\<open>events_geo\<close>. With \<^verbatim>\<open>--collection foo --mapgeo\<close> the documents of \<^verbatim>\<open>foo\<close> are
  read, the result is written to \<^verbatim>\<open>events_geo\<close>, and no collection \<^verbatim>\<open>foo_geo\<close> exists
  afterwards.
\<close>

theorem foo_is_written_to_events_geo:
  "collection foo_args = ''foo'' \<and>
   fst (main ex_env foo_args foo_world) = Exit 0 \<and>
   db (snd (main ex_env foo_args foo_world)) (database foo_args, collection foo_args @ ''_geo'')
     = None \<and>
   db (snd (main ex_env foo_args foo_world)) (database foo_args, ''events_geo'')
     = Some (geo_docs [six_field_doc])"
  using map_geo_ok [OF ex_mongo, of foo_args foo_world]
  by (simp add: main_def foo_args_def default_args_def foo_world_def events_collection_def
      coll_docs_def)

text \<open>
  C5, amended. For every configured collection name, a geo-reshape that reaches MongoDB
  reads that collection and writes its result to the collection \<^verbatim>\<open>events_geo\<close> of the same
  database, and changes nothing else; that name is the configured name followed by
  \<^verbatim>\<open>_geo\<close> exactly when the configured name is \<^verbatim>\<open>events\<close>, the default.
\<close>

theorem geo_output_is_events_geo:
  assumes "mapgeo a" and "mongo_up e"
  shows "\<exists>w'. main e a w = (Exit 0, w') \<and>
           db w' = (db w)((database a, ''events_geo'') \<mapsto>
                            geo_docs (coll_docs w (events_collection a))) \<and>
           fs w' = fs w \<and>
           ((database a, collection a @ ''_geo'') = (database a, ''events_geo'')
              \<longleftrightarrow> collection a = ''events'')"
proof -
  let ?w' = "(py_print ''Mapping lat/lon to GeoJSON'' w)
               \<lparr>db := (db w)((database a, ''events_geo'') \<mapsto>
                         geo_docs (coll_docs w (events_collection a)))\<rparr>"
  from map_geo_ok [OF assms(2), of a w] assms(1)
  have "main e a w = (Exit 0, ?w')" by (simp add: main_def)
  moreover have "db ?w' = (db w)((database a, ''events_geo'') \<mapsto>
                            geo_docs (coll_docs w (events_collection a)))" by simp
  moreover have "fs ?w' = fs w" by simp
  moreover have "(database a, collection a @ ''_geo'') = (database a, ''events_geo'')
              \<longleftrightarrow> collection a = ''events''"
    using geo_suffix [of "collection a"] by simp
  ultimately show ?thesis by blast
qed

text \<open>Witness: the run with \<^verbatim>\<open>--collection foo --mapgeo\<close>.\<close>

theorem geo_output_is_events_geo_witness:
  "mapgeo foo_args \<and> mongo_up ex_env \<and>
   (\<exists>w'. main ex_env foo_args foo_world = (Exit 0, w') \<and>
      db w' = [(''GDELT'', ''foo'') \<mapsto> [six_field_doc],
               (''GDELT'', ''events_geo'') \<mapsto> geo_docs [six_field_doc]] \<and>
      fs w' = Map.empty \<and>
      (database foo_args, collection foo_args @ ''_geo'') \<noteq> (database foo_args, ''events_geo''))"
proof -
  have m: "mapgeo foo_args" by (simp add: foo_args_def)
  from geo_output_is_events_geo [OF m ex_mongo, of foo_world] m ex_mongo
  show ?thesis
    by (simp add: foo_args_def default_args_def foo_world_def events_collection_def coll_docs_def)
qed

subsection \<open>C6\<close>

text \<open>
  C6. When the archive of a manifest line is downloaded and its digest is not the
  checksum of the line, the pass prints the warning, which contains both the expected
  and the computed checksum, as the last thing it prints; it inserts nothing and never
  calls \<^verbatim>\<open>extract_zip_file\<close>; it leaves the archive on disk; and it raises nothing: the
  loop goes on with the remaining lines from the world the pass leaves.
\<close>

theorem mismatch_skips_entry_and_continues:
  assumes parse: "split_ws l = [size_field, md5, zip_url]" "py_int size_field = Some sz"
    and fresh: "\<not> (os_path_exists w (local_path zip_url) \<and> \<not> overwrite a)"
    and resp: "http e zip_url = Some resp" "\<not> error_status (status resp)" "chunks resp \<noteq> []"
    and path: "local_path zip_url \<noteq> []" "fs w (local_path zip_url) \<noteq> Some Dir"
    and differ: "md5_hexdigest (concat (chunks resp)) \<noteq> md5"
  shows "\<exists>w1. process_line e a l w = (Inr (), w1) \<and>
              download_loop e a (l # ls) w = download_loop e a ls w1 \<and>
              db w1 = db w \<and>
              unzips (trace w1) = unzips (trace w) \<and>
              fs w1 = (fs w)(local_path zip_url \<mapsto> File (concat (chunks resp))) \<and>
              stdout_lines (trace w1) \<noteq> [] \<and>
              last (stdout_lines (trace w1)) =
                mismatch_warning md5 (md5_hexdigest (concat (chunks resp))) (local_path zip_url)
                  @ [LF] \<and>
              (\<exists>pre mid post.
                 mismatch_warning md5 (md5_hexdigest (concat (chunks resp))) (local_path zip_url) =
                   pre @ md5 @ mid @ md5_hexdigest (concat (chunks resp)) @ post)"
proof -
  from fetch_and_verify_rejects [OF fresh resp path differ, where sz = sz]
  obtain w1 where fv: "fetch_and_verify e a sz md5 zip_url w = (Inr None, w1)"
    and w1: "fs w1 = (fs w)(local_path zip_url \<mapsto> File (concat (chunks resp)))" "db w1 = db w"
      "unzips (trace w1) = unzips (trace w)" "stdout_lines (trace w1) \<noteq> []"
      "last (stdout_lines (trace w1)) =
         mismatch_warning md5 (md5_hexdigest (concat (chunks resp))) (local_path zip_url) @ [LF]"
    by blast
  have p: "process_line e a l w = (Inr (), w1)"
    using parse fv by (simp add: process_line_def)
  then have "download_loop e a (l # ls) w = download_loop e a ls w1" by simp
  with p w1 mismatch_warning_names_both show ?thesis
    by (intro exI [of _ w1]) simp
qed

text \<open>
  Witness: a manifest of one line with the checksum in upper case; the loop ends
  without an exception, and nothing is recorded or unpacked. And the run over the
  manifest of two lines, whose first line has the wrong checksum: the second archive is
  requested, recorded and unpacked, and the run ends with status 0.
\<close>

theorem mismatch_skips_entry_and_continues_witness:
  "(\<exists>w1. process_line ex_env default_args ex_line_upper empty_world = (Inr (), w1) \<and>
         download_loop ex_env default_args [ex_line_upper] empty_world = (Inr (), w1) \<and>
         db w1 = Map.empty \<and>
         unzips (trace w1) = [] \<and>
         fs w1 = [ex_zip \<mapsto> File ''hello''] \<and>
         last (stdout_lines (trace w1)) =
           mismatch_warning hello_md5_upper hello_md5 ex_zip @ [LF]) \<and>
   (\<exists>w'. main ex_env local_args manifest_world = (Exit 0, w') \<and>
         http_gets (trace w') = [ex_url, empty_zip_url] \<and>
         unzips (trace w') = [empty_zip_name] \<and>
         fs w' ex_zip = Some (File ''hello'') \<and>
         db w' = [files_collection local_args \<mapsto>
                    [download_record ex_env empty_zip_url empty_zip_name 22 empty_zip_md5]])"
proof -
  have d: "md5_hexdigest (concat (chunks hello_response)) \<noteq> hello_md5_upper"
    using md5_hello_not_upper by (simp add: ex_body)
  from mismatch_skips_entry_and_continues [OF split_ws_ex_line_upper py_int_5 ex_fresh ex_http
      ex_status ex_chunks ex_path ex_not_dir d, of "[]"]
  have one: "\<exists>w1. process_line ex_env default_args ex_line_upper empty_world = (Inr (), w1) \<and>
         download_loop ex_env default_args [ex_line_upper] empty_world = (Inr (), w1) \<and>
         db w1 = Map.empty \<and>
         unzips (trace w1) = [] \<and>
         fs w1 = [ex_zip \<mapsto> File ''hello''] \<and>
         last (stdout_lines (trace w1)) =
           mismatch_warning hello_md5_upper hello_md5 ex_zip @ [LF]"
    by (simp add: ex_body md5_hello local_path_ex_url empty_world_def) blast
  from ex_two_line_run
  have two: "\<exists>w'. main ex_env local_args manifest_world = (Exit 0, w') \<and>
         http_gets (trace w') = [ex_url, empty_zip_url] \<and>
         unzips (trace w') = [empty_zip_name] \<and>
         fs w' ex_zip = Some (File ''hello'') \<and>
         db w' = [files_collection local_args \<mapsto>
                    [download_record ex_env empty_zip_url empty_zip_name 22 empty_zip_md5]]"
    by blast
  from one two show ?thesis by (rule conjI)
qed

subsection \<open>C7\<close>

text \<open>
  C7. Without \<^verbatim>\<open>--overwrite\<close>: when the local name of the archive exists, the fetch step
  requests nothing and leaves every file as it is (and so does the whole pass, as far as
  requests go); and after a fetch that did not raise, whether it downloaded or reused,
  the archive exists, so that a second fetch of the same entry requests nothing and
  changes no file. The local name is what follows the last \<^verbatim>\<open>/\<close> of the URL.
\<close>

theorem reuse_issues_no_request_and_keeps_file:
  assumes no_overwrite: "\<not> overwrite a"
  shows "(os_path_exists w (local_path zip_url) \<longrightarrow>
            (\<exists>w'. fetch_and_verify e a sz md5 zip_url w = (Inr (Some (local_path zip_url)), w') \<and>
                  fs w' = fs w \<and> db w' = db w \<and>
                  http_gets (trace w') = http_gets (trace w)) \<and>
            (\<forall>l size_field.
               split_ws l = [size_field, md5, zip_url] \<and> py_int size_field = Some sz \<longrightarrow>
               http_gets (trace (snd (process_line e a l w))) = http_gets (trace w))) \<and>
         (\<forall>x w1. fetch_and_verify e a sz md5 zip_url w = (Inr x, w1) \<longrightarrow>
            (\<exists>w2. fetch_and_verify e a sz md5 zip_url w1 = (Inr (Some (local_path zip_url)), w2) \<and>
                  fs w2 = fs w1 \<and> http_gets (trace w2) = http_gets (trace w1))) \<and>
         (\<forall>pre seg. zip_url = pre @ ''/'' @ seg \<and> CHR ''/'' \<notin> set seg \<longrightarrow>
            local_path zip_url = seg)"
proof -
  have seg: "local_path zip_url = seg"
    if "zip_url = pre @ ''/'' @ seg" "CHR ''/'' \<notin> set seg" for pre seg
    using that local_path_final_segment [of seg pre] by simp
  have one: "\<exists>w'. fetch_and_verify e a sz md5 zip_url v = (Inr (Some (local_path zip_url)), w') \<and>
                  fs w' = fs v \<and> db w' = db v \<and> http_gets (trace w') = http_gets (trace v)"
    if "os_path_exists v (local_path zip_url)" for v
    using fetch_and_verify_reuse [OF that no_overwrite, of e sz md5] by simp
  have pass: "http_gets (trace (snd (process_line e a l w))) = http_gets (trace w)"
    if ex: "os_path_exists w (local_path zip_url)"
      and parse: "split_ws l = [size_field, md5, zip_url]" "py_int size_field = Some sz"
    for l size_field
  proof -
    let ?w1 = "py_print (''File '' @ quoted (local_path zip_url) @ ''exists locally'') w"
    obtain r w' where u: "unzip_and_list e l (local_path zip_url) ?w1 = (r, w')"
      by (cases "unzip_and_list e l (local_path zip_url) ?w1")
    from unzip_and_list_frame [OF u] have "http_gets (trace w') = http_gets (trace w)" by simp
    with process_line_reuse [OF parse ex no_overwrite, of e] u show ?thesis by simp
  qed
  have two: "\<exists>w2. fetch_and_verify e a sz md5 zip_url w1 = (Inr (Some (local_path zip_url)), w2) \<and>
                  fs w2 = fs w1 \<and> http_gets (trace w2) = http_gets (trace w1)"
    if "fetch_and_verify e a sz md5 zip_url w = (Inr x, w1)" for x w1
    using one [OF fetch_and_verify_leaves_file [OF that]] by blast
  from one [of w] pass two seg show ?thesis by blast
qed

text \<open>
  Witness: a directory that holds the archive (no request, no change), and an empty
  directory, where the first fetch downloads and the second does nothing.
\<close>

theorem reuse_issues_no_request_and_keeps_file_witness:
  "\<not> overwrite default_args \<and> os_path_exists archive_world (local_path ex_url) \<and>
   (\<exists>w'. fetch_and_verify ex_env default_args 5 hello_md5 ex_url archive_world =
            (Inr (Some ex_zip), w') \<and>
          fs w' = fs archive_world \<and> http_gets (trace w') = []) \<and>
   http_gets (trace (snd (process_line ex_env default_args ex_line archive_world))) = [] \<and>
   (\<exists>w1 w2. fetch_and_verify ex_env default_args 5 hello_md5 ex_url empty_world =
               (Inr (Some ex_zip), w1) \<and>
             http_gets (trace w1) = [ex_url] \<and>
             fetch_and_verify ex_env default_args 5 hello_md5 ex_url w1 =
               (Inr (Some ex_zip), w2) \<and>
             fs w2 = fs w1 \<and> http_gets (trace w2) = [ex_url]) \<and>
   ex_url = ''http://example.org'' @ ''/'' @ ex_zip \<and> CHR ''/'' \<notin> set ex_zip \<and>
   local_path ex_url = ex_zip"
proof -
  note t1 = reuse_issues_no_request_and_keeps_file [OF ex_no_overwrite,
      of archive_world ex_url ex_env 5 hello_md5]
  note t2 = reuse_issues_no_request_and_keeps_file [OF ex_no_overwrite,
      of empty_world ex_url ex_env 5 hello_md5]
  from t1 ex_reuse obtain wa
    where "fetch_and_verify ex_env default_args 5 hello_md5 ex_url archive_world =
             (Inr (Some (local_path ex_url)), wa)"
      "fs wa = fs archive_world" "http_gets (trace wa) = http_gets (trace archive_world)"
    by blast
  then have a: "\<exists>w'. fetch_and_verify ex_env default_args 5 hello_md5 ex_url archive_world =
            (Inr (Some ex_zip), w') \<and>
          fs w' = fs archive_world \<and> http_gets (trace w') = []"
    by (intro exI [of _ wa]) (simp add: local_path_ex_url archive_world_def)
  from t1 ex_reuse split_ws_ex_line py_int_5
  have b: "http_gets (trace (snd (process_line ex_env default_args ex_line archive_world))) = []"
    by (simp add: archive_world_def)
  from ex_fetch_match obtain w1
    where fv1: "fetch_and_verify ex_env default_args 5 hello_md5 ex_url empty_world =
                  (Inr (Some ex_zip), w1)"
      and h1: "http_gets (trace w1) = [ex_url]"
    by blast
  from t2 fv1 obtain w2
    where "fetch_and_verify ex_env default_args 5 hello_md5 ex_url w1 =
             (Inr (Some (local_path ex_url)), w2)"
      "fs w2 = fs w1" "http_gets (trace w2) = http_gets (trace w1)"
    by blast
  with fv1 h1
  have c: "\<exists>w1 w2. fetch_and_verify ex_env default_args 5 hello_md5 ex_url empty_world =
               (Inr (Some ex_zip), w1) \<and>
             http_gets (trace w1) = [ex_url] \<and>
             fetch_and_verify ex_env default_args 5 hello_md5 ex_url w1 =
               (Inr (Some ex_zip), w2) \<and>
             fs w2 = fs w1 \<and> http_gets (trace w2) = [ex_url]"
    by (intro exI [of _ w1] exI [of _ w2]) (simp add: local_path_ex_url)
  have u: "ex_url = ''http://example.org'' @ ''/'' @ ex_zip" "CHR ''/'' \<notin> set ex_zip"
    by (simp_all add: ex_url_def ex_zip_def)
  with t1 have d: "local_path ex_url = ex_zip" by blast
  from ex_no_overwrite ex_reuse a b c u d show ?thesis by blast
qed

subsection \<open>C8\<close>

text \<open>
  C8, as the specification states it, is false, for two reasons. \<^verbatim>\<open>--mapgeo\<close> is looked
  at before \<^verbatim>\<open>--local\<close>: with \<^verbatim>\<open>--local missing.txt --download --mapgeo\<close>, where
  \<^verbatim>\<open>missing.txt\<close> does not exist, the run does the geo-reshape and leaves with status 0.
  And \<^verbatim>\<open>if args.local:\<close> takes an empty value for no value: with \<^verbatim>\<open>--local "" --download\<close>
  the run requests the manifest from the network (and here, the answer being no
  manifest, ends with \<^verbatim>\<open>ValueError\<close>).
\<close>

theorem missing_local_manifest_not_always_exit_1:
  "(local missing_mapgeo_args = Some ''missing.txt'' \<and>
    \<not> os_path_isfile empty_world ''missing.txt'' \<and>
    download missing_mapgeo_args \<and>
    fst (main ex_env missing_mapgeo_args empty_world) = Exit 0) \<and>
   (local empty_local_args = Some [] \<and>
    \<not> os_path_isfile empty_world [] \<and>
    download empty_local_args \<and>
    fst (main ex_env empty_local_args empty_world) = Raised ValueError \<and>
    http_gets (trace (snd (main ex_env empty_local_args empty_world))) =
      [incremental empty_local_args])"
proof -
  have "local missing_mapgeo_args = Some ''missing.txt'' \<and>
    \<not> os_path_isfile empty_world ''missing.txt'' \<and>
    download missing_mapgeo_args \<and>
    fst (main ex_env missing_mapgeo_args empty_world) = Exit 0"
    using map_geo_ok [OF ex_mongo, of missing_mapgeo_args empty_world]
    by (simp add: main_def missing_mapgeo_args_def default_args_def os_path_isfile_def
        empty_world_def)
  moreover have "local empty_local_args = Some [] \<and>
    \<not> os_path_isfile empty_world [] \<and>
    download empty_local_args \<and>
    fst (main ex_env empty_local_args empty_world) = Raised ValueError \<and>
    http_gets (trace (snd (main ex_env empty_local_args empty_world))) =
      [incremental empty_local_args]"
    by (simp add: main_def resolve_manifest_def local_given_def fetch_manifest_def Let_def
        strftime_def pad2_def show_nat.simps digit_char_def ziplist_str_def
        open_w_def append_file_def utf8_valid_def emit_def py_print_def
        download_all_def read_text_lines_def read_file_def keep_lines_def process_line_def
        split_ws_def is_space_def LF_def CR_def os_path_isfile_def
        empty_local_args_def default_args_def ex_env_def ex_time_def empty_world_def ex_url_def
        empty_zip_url_def not_found_response_def)
  ultimately show ?thesis by (rule conjI)
qed

text \<open>
  C8, amended. When \<^verbatim>\<open>--mapgeo\<close> is not given and \<^verbatim>\<open>--local\<close> names a path, not the empty
  string, that is not an existing file, the run prints the diagnostic and leaves with
  status 1, having requested nothing and changed nothing (with \<^verbatim>\<open>--download\<close> as
  without). A run that ends with an exit status ends with 1 in that case and with 0 in
  every other; and a geo-reshape that reaches MongoDB ends with status 0.
\<close>

theorem exit_status_one_only_for_missing_manifest:
  "(\<not> mapgeo a \<and> local a = Some p \<and> p \<noteq> [] \<and> \<not> os_path_isfile w p \<longrightarrow>
      (\<exists>w'. main e a w = (Exit 1, w') \<and>
            stdout_lines (trace w') = stdout_lines (trace w) @ [quoted p @ '' does not exist'' @ [LF]] \<and>
            http_gets (trace w') = http_gets (trace w) \<and>
            fs w' = fs w \<and> db w' = db w)) \<and>
   (\<forall>n w'. main e a w = (Exit n, w') \<longrightarrow>
      (if \<not> mapgeo a \<and> local_given a \<and> \<not> os_path_isfile w (the (local a))
       then n = 1 else n = 0)) \<and>
   (mapgeo a \<and> mongo_up e \<longrightarrow> fst (main e a w) = Exit 0)"
proof -
  have one: "\<exists>w'. main e a w = (Exit 1, w') \<and>
            stdout_lines (trace w') = stdout_lines (trace w) @ [quoted p @ '' does not exist'' @ [LF]] \<and>
            http_gets (trace w') = http_gets (trace w) \<and> fs w' = fs w \<and> db w' = db w"
    if "\<not> mapgeo a" "local a = Some p" "p \<noteq> []" "\<not> os_path_isfile w p"
    using that resolve_manifest_missing [OF that(2-4), of e]
    by (simp add: main_def)
  have two: "if \<not> mapgeo a \<and> local_given a \<and> \<not> os_path_isfile w (the (local a))
             then n = 1 else n = 0"
    if m: "main e a w = (Exit n, w')" for n w'
  proof (cases "mapgeo a")
    case True
    with m have "map_geo e a w = (Exit n, w')" by (simp add: main_def)
    from map_geo_outcome [OF this] True show ?thesis by simp
  next
    case False
    obtain rr w1 where rm: "resolve_manifest e a w = (rr, w1)"
      by (cases "resolve_manifest e a w")
    show ?thesis
    proof (cases rr)
      case (Inl oc)
      with m False rm have "oc = Exit n" by (simp add: main_def)
      with rm Inl resolve_manifest_exit [of e a w n w1] False show ?thesis by simp
    next
      case (Inr filename)
      with rm have ok: "\<not> (local_given a \<and> \<not> os_path_isfile w (the (local a)))"
        by (auto simp: resolve_manifest_def split: if_splits)
      from m False rm Inr have "n = 0"
        by (auto simp: main_def split: if_splits prod.splits sum.splits)
      with ok show ?thesis by auto
    qed
  qed
  have three: "fst (main e a w) = Exit 0" if "mapgeo a" "mongo_up e"
    using map_geo_ok [OF that(2), of a w] that(1) by (simp add: main_def)
  from one two three show ?thesis by blast
qed

text \<open>
  Witness: \<^verbatim>\<open>--local missing.txt --download\<close> in an empty directory; \<^verbatim>\<open>--mapgeo\<close>; and
  \<^verbatim>\<open>--local manifest.txt --download\<close> where the manifest exists, a run that completes.
\<close>

theorem exit_status_one_only_for_missing_manifest_witness:
  "\<not> mapgeo missing_args \<and> local missing_args = Some ''missing.txt'' \<and>
   download missing_args \<and> \<not> os_path_isfile empty_world ''missing.txt'' \<and>
   (\<exists>w'. main ex_env missing_args empty_world = (Exit 1, w') \<and>
      stdout_lines (trace w') = [quoted ''missing.txt'' @ '' does not exist'' @ [LF]] \<and>
      http_gets (trace w') = [] \<and> fs w' = Map.empty \<and> db w' = Map.empty) \<and>
   mapgeo mapgeo_args \<and> mongo_up ex_env \<and> fst (main ex_env mapgeo_args geo_world) = Exit 0 \<and>
   download local_args \<and> os_path_isfile manifest_world (the (local local_args)) \<and>
   fst (main ex_env local_args manifest_world) = Exit 0"
proof -
  have h: "\<not> mapgeo missing_args" "local missing_args = Some ''missing.txt''"
    "download missing_args" "\<not> os_path_isfile empty_world ''missing.txt''"
    by (simp_all add: missing_args_def default_args_def os_path_isfile_def empty_world_def)
  have g: "mapgeo mapgeo_args" by (simp add: mapgeo_args_def)
  from exit_status_one_only_for_missing_manifest
         [of missing_args "''missing.txt''" empty_world ex_env] h
  have a: "\<exists>w'. main ex_env missing_args empty_world = (Exit 1, w') \<and>
      stdout_lines (trace w') = [quoted ''missing.txt'' @ '' does not exist'' @ [LF]] \<and>
      http_gets (trace w') = [] \<and> fs w' = Map.empty \<and> db w' = Map.empty"
    by (simp add: empty_world_def)
  from exit_status_one_only_for_missing_manifest [of mapgeo_args "[]" geo_world ex_env] g ex_mongo
  have b: "fst (main ex_env mapgeo_args geo_world) = Exit 0" by blast
  have l: "download local_args" "os_path_isfile manifest_world (the (local local_args))"
    by (simp_all add: local_args_def default_args_def os_path_isfile_def manifest_world_def)
  from ex_two_line_run obtain n w'
    where m: "main ex_env local_args manifest_world = (Exit n, w')" by blast
  with exit_status_one_only_for_missing_manifest [of local_args "[]" manifest_world ex_env] l
  have "n = 0" by (auto split: if_splits)
  with m have c: "fst (main ex_env local_args manifest_world) = Exit 0" by simp
  from h a g ex_mongo b l c show ?thesis by blast
qed

subsection \<open>C9\<close>

text \<open>
  C9. When the local name of the archive exists and \<^verbatim>\<open>--overwrite\<close> is not given, the
  pass never calls \<^verbatim>\<open>compute_md5\<close>, leaves the database as it is, and calls
  \<^verbatim>\<open>extract_zip_file\<close> on the local file: what the pass does is what the second half of
  the body does after the one line printed.
\<close>

theorem reuse_extracts_without_verification:
  assumes parse: "split_ws l = [size_field, md5, zip_url]" "py_int size_field = Some sz"
    and reuse: "os_path_exists w (local_path zip_url)" "\<not> overwrite a"
    and run: "process_line e a l w = (r, w')"
  shows "md5_calls (trace w') = md5_calls (trace w) \<and>
         db w' = db w \<and>
         unzips (trace w') = unzips (trace w) @ [local_path zip_url] \<and>
         (r, w') = unzip_and_list e l (local_path zip_url)
                     (py_print (''File '' @ quoted (local_path zip_url) @ ''exists locally'') w)"
proof -
  let ?w1 = "py_print (''File '' @ quoted (local_path zip_url) @ ''exists locally'') w"
  from process_line_reuse [OF parse reuse, of e] run
  have u: "unzip_and_list e l (local_path zip_url) ?w1 = (r, w')" by simp
  from unzip_and_list_frame [OF u] u show ?thesis by simp
qed

text \<open>
  Witness: the directory that holds the archive, and a manifest line whose checksum is
  not the archive's: the archive is unpacked all the same.
\<close>

theorem reuse_extracts_without_verification_witness:
  "os_path_exists archive_world (local_path ex_url) \<and> \<not> overwrite default_args \<and>
   fs archive_world ex_zip = Some (File empty_zip) \<and>
   (\<exists>r w'. process_line ex_env default_args ex_line archive_world = (r, w') \<and>
      md5_calls (trace w') = [] \<and> db w' = Map.empty \<and> unzips (trace w') = [ex_zip])"
proof -
  obtain r w' where run: "process_line ex_env default_args ex_line archive_world = (r, w')"
    by (cases "process_line ex_env default_args ex_line archive_world")
  from reuse_extracts_without_verification
         [OF split_ws_ex_line py_int_5 ex_reuse ex_no_overwrite run]
  have "md5_calls (trace w') = [] \<and> db w' = Map.empty \<and> unzips (trace w') = [ex_zip]"
    by (simp add: archive_world_def local_path_ex_url)
  with run have "\<exists>r w'. process_line ex_env default_args ex_line archive_world = (r, w') \<and>
      md5_calls (trace w') = [] \<and> db w' = Map.empty \<and> unzips (trace w') = [ex_zip]"
    by blast
  moreover have "fs archive_world ex_zip = Some (File empty_zip)"
    by (simp add: archive_world_def)
  ultimately show ?thesis using ex_reuse ex_no_overwrite by blast
qed

subsection \<open>C10\<close>

text \<open>
  C10. For a freshly downloaded archive whose checksum is the manifest's (MongoDB
  reachable, the size within 64 bits), the record is in the \<^verbatim>\<open>files\<close> collection before
  \<^verbatim>\<open>extract_zip_file\<close> is called: the second half of the body starts from a world that
  holds the record and has seen no extraction. Whatever the extraction does, the world
  after the pass holds the record; and when the extraction raises, the loop ends with
  that exception in that world.
\<close>

theorem record_inserted_before_extraction:
  assumes parse: "split_ws l = [size_field, md5, zip_url]" "py_int size_field = Some sz"
    and fresh: "\<not> (os_path_exists w (local_path zip_url) \<and> \<not> overwrite a)"
    and resp: "http e zip_url = Some resp" "\<not> error_status (status resp)" "chunks resp \<noteq> []"
    and path: "local_path zip_url \<noteq> []" "fs w (local_path zip_url) \<noteq> Some Dir"
    and verified: "md5_hexdigest (concat (chunks resp)) = md5"
    and mongo: "mongo_up e" "int64_ok (BInt sz)"
    and run: "process_line e a l w = (r, w')"
  shows "(\<exists>w1. fetch_and_verify e a sz md5 zip_url w = (Inr (Some (local_path zip_url)), w1) \<and>
               coll_docs w1 (files_collection a) =
                 coll_docs w (files_collection a) @
                   [download_record e zip_url (local_path zip_url) sz md5] \<and>
               unzips (trace w1) = unzips (trace w) \<and>
               unzip_and_list e l (local_path zip_url) w1 = (r, w')) \<and>
         unzips (trace w') = unzips (trace w) @ [local_path zip_url] \<and>
         coll_docs w' (files_collection a) =
           coll_docs w (files_collection a) @
             [download_record e zip_url (local_path zip_url) sz md5] \<and>
         (\<forall>err. r = Inl err \<longrightarrow> download_loop e a (l # ls) w = (Inl err, w'))"
proof -
  from fetch_and_verify_accepts [OF fresh resp path mongo verified]
  obtain w1 where fv: "fetch_and_verify e a sz md5 zip_url w = (Inr (Some (local_path zip_url)), w1)"
    and db1: "db w1 = (db w)(files_collection a \<mapsto> coll_docs w (files_collection a) @
                              [download_record e zip_url (local_path zip_url) sz md5])"
    and z1: "unzips (trace w1) = unzips (trace w)"
    by blast
  from db1 have c1: "coll_docs w1 (files_collection a) =
      coll_docs w (files_collection a) @ [download_record e zip_url (local_path zip_url) sz md5]"
    by (simp add: coll_docs_def)
  from parse fv run have u: "unzip_and_list e l (local_path zip_url) w1 = (r, w')"
    by (simp add: process_line_def)
  from unzip_and_list_frame [OF u]
  have f: "db w' = db w1" "unzips (trace w') = unzips (trace w1) @ [local_path zip_url]"
    by simp_all
  have c': "coll_docs w' (files_collection a) = coll_docs w1 (files_collection a)"
    by (rule coll_docs_cong) (rule f)
  have loop: "download_loop e a (l # ls) w = (Inl err, w')" if "r = Inl err" for err
    using run that by simp
  from fv c1 z1 u f c' loop show ?thesis by auto
qed

text \<open>
  Witness: the archive \<^verbatim>\<open>hello\<close> has the checksum of its manifest line and is recorded;
  it is no zip file, the extraction raises \<^verbatim>\<open>BadZipFile\<close>, the loop ends there, and the
  record is in the collection.
\<close>

theorem record_inserted_before_extraction_witness:
  "\<exists>w1 w'. fetch_and_verify ex_env default_args 5 hello_md5 ex_url empty_world =
              (Inr (Some ex_zip), w1) \<and>
            coll_docs w1 (files_collection default_args) =
              [download_record ex_env ex_url ex_zip 5 hello_md5] \<and>
            unzips (trace w1) = [] \<and>
            unzip_and_list ex_env ex_line ex_zip w1 = (Inl BadZipFile, w') \<and>
            process_line ex_env default_args ex_line empty_world = (Inl BadZipFile, w') \<and>
            download_loop ex_env default_args [ex_line] empty_world = (Inl BadZipFile, w') \<and>
            unzips (trace w') = [ex_zip] \<and>
            coll_docs w' (files_collection default_args) =
              [download_record ex_env ex_url ex_zip 5 hello_md5]"
proof -
  from ex_pass_bad_zip obtain w'
    where run: "process_line ex_env default_args ex_line empty_world = (Inl BadZipFile, w')"
    by blast
  have v: "md5_hexdigest (concat (chunks hello_response)) = hello_md5"
    by (simp add: ex_body md5_hello)
  from record_inserted_before_extraction [OF split_ws_ex_line py_int_5 ex_fresh ex_http
      ex_status ex_chunks ex_path ex_not_dir v ex_mongo ex_int64 run, of "[]"] run
  show ?thesis
    by (simp add: local_path_ex_url empty_world_def coll_docs_def)
qed

end
